theory Spec2Isabelle
  imports Main
begin

section \<open>Slicing and padding logic of \<open>Hdf5TransportData\<close>\<close>

text \<open>
  The development embeds the index arithmetic of
  \<^verbatim>\<open>savu/data/transport_data/hdf5_transport_data.py\<close> (Python 2 semantics: \<^verbatim>\<open>/\<close> on
  integers is floor division, \<^verbatim>\<open>None\<close> compares below every number).
  Exceptions are values of type \<open>error\<close>; every function that may raise returns
  \<open>error + 'a\<close> with \<open>Inl\<close> for the exception.
\<close>

subsection \<open>Errors and selectors\<close>

text \<open>
  \<open>InvalidSliceError\<close> stands for the source's
  \<^verbatim>\<open>Exception('Cannot have a negative value in the slice list.')\<close>,
  \<open>UnsupportedPatternError\<close> for its two pattern exceptions ("does not support slicing in
  directions", "The core dimension does not support multiple chunks."); the others are
  the interpreter's own exceptions.
\<close>

datatype error =
    InvalidSliceError
  | UnsupportedPatternError
  | IndexError
  | TypeError
  | ValueError
  | AttributeError
  | ZeroDivisionError
  | UnboundLocalError

text \<open>A per-axis selector: a Python \<^verbatim>\<open>slice(start, stop, step)\<close> (\<open>None\<close> for an absent
  bound) or a plain integer index.\<close>

datatype selector = Slice "int option" "int option" "int option" | Index int

type_synonym window = "selector list"

text \<open>The preview descriptor, as returned by \<^verbatim>\<open>get_preview().get_starts_stops_steps()\<close>.\<close>

record preview =
  starts :: "int list"
  stops :: "int list"
  steps :: "int list"
  chunks :: "int list"

subsection \<open>Index generation\<close>

text \<open>\<^verbatim>\<open>np.arange(start, stop, step)\<close> and \<^verbatim>\<open>range(start, stop, step)\<close> on integers: the
  number of points is the ceiling of \<open>(stop - start) / step\<close>, or none when that is not
  positive. A zero step raises.\<close>

definition arange :: "int \<Rightarrow> int \<Rightarrow> int \<Rightarrow> int list" where
  "arange start stop step =
     map (\<lambda>k. start + int k * step) [0..<nat (- ((start - stop) div step))]"

definition np_arange :: "int \<Rightarrow> int \<Rightarrow> int \<Rightarrow> error + int list" where
  "np_arange start stop step =
     (if step = 0 then Inl ZeroDivisionError else Inr (arange start stop step))"

text \<open>\<^verbatim>\<open>_get_slice_dir_matrix\<close>: \<open>a\<close> is the row of step points tiled \<open>chunk\<close> times, \<open>b\<close>
  holds in row \<open>j\<close> the offset \<open>j - chunk/2\<close>; the matrix is their sum.\<close>

definition get_slice_dir_matrix :: "preview \<Rightarrow> nat \<Rightarrow> error + int list list" where
  "get_slice_dir_matrix pv dim =
     (if dim < length (chunks pv) \<and> dim < length (starts pv)
         \<and> dim < length (stops pv) \<and> dim < length (steps pv)
      then
        (let chunk = chunks pv ! dim in
         case np_arange (starts pv ! dim) (stops pv ! dim) (steps pv ! dim) of
           Inl e \<Rightarrow> Inl e
         | Inr pts \<Rightarrow>
             (let a = replicate (nat chunk) pts;
                  b = map (\<lambda>j. replicate (length pts) (j - chunk div 2)) [0..chunk - 1];
                  dim_idx = map2 (map2 (+)) a b
              in if \<exists>row \<in> set dim_idx. \<exists>v \<in> set row. v < 0
                 then Inl InvalidSliceError
                 else Inr dim_idx))
      else Inl IndexError)"

text \<open>\<^verbatim>\<open>__get_slice_dir_index\<close> (with \<^verbatim>\<open>boolean=False\<close>). The fixed directions are the
  pairs (axis, pinned values) of \<^verbatim>\<open>_get_fixed_directions()\<close>.\<close>

definition get_slice_dir_index ::
  "preview \<Rightarrow> (nat \<times> int list) list \<Rightarrow> nat \<Rightarrow> error + int list" where
  "get_slice_dir_index pv fixed dim =
     (if dim < length (chunks pv) then
        (if chunks pv ! dim > 1 then
           (case get_slice_dir_matrix pv dim of
              Inl e \<Rightarrow> Inl e
            | Inr m \<Rightarrow> Inr (concat (transpose m)))
         else
           (case map_of fixed dim of
              Some v \<Rightarrow> Inr v
            | None \<Rightarrow>
                (if dim < length (starts pv) \<and> dim < length (stops pv) \<and> dim < length (steps pv)
                 then np_arange (starts pv ! dim) (stops pv ! dim) (steps pv ! dim)
                 else Inl IndexError)))
      else Inl IndexError)"

subsection \<open>Shapes and the tiling of index sequences\<close>

text \<open>A shape entry is an integer or the marker \<^verbatim>\<open>'var'\<close>.\<close>

datatype dimlen = Len int | Var

fun the_len :: "dimlen \<Rightarrow> int" where
  "the_len (Len n) = n"
| "the_len Var = 0"

text \<open>\<^verbatim>\<open>__get_shape_of_slice_dirs\<close>. When a slice axis is variable, every marker of the
  shape is replaced by the number of labels of its axis (\<open>labels ! index\<close> stands for
  \<^verbatim>\<open>len(self.data_info.get('axis_labels')[index])\<close>).\<close>

definition get_shape_of_slice_dirs ::
  "int list \<Rightarrow> nat list \<Rightarrow> dimlen list \<Rightarrow> error + int list" where
  "get_shape_of_slice_dirs labels slice_dirs shape =
     (if \<exists>s \<in> set slice_dirs. length shape \<le> s then Inl IndexError
      else
        (let sshape = map (\<lambda>s. shape ! s) slice_dirs in
         if Var \<in> set sshape then
           (if \<exists>i < length shape. shape ! i = Var \<and> length labels \<le> i then Inl IndexError
            else
              (let shape' = map (\<lambda>(index, v). case v of Var \<Rightarrow> labels ! index | Len n \<Rightarrow> n)
                                (enumerate 0 shape)
               in Inr (map (\<lambda>s. shape' ! s) slice_dirs)))
         else Inr (map the_len sshape)))"

text \<open>\<^verbatim>\<open>__chunk_length_repeat\<close>: for slice axis \<open>dim\<close>, \<open>chunk\<close> is the product of the
  lengths before it, \<open>length\<close> its own length and \<open>repeat\<close> the product of the lengths
  after it.\<close>

definition chunk_length_repeat ::
  "int list \<Rightarrow> nat list \<Rightarrow> dimlen list \<Rightarrow> error + (int list \<times> int list \<times> int list)" where
  "chunk_length_repeat labels slice_dirs shape =
     (case get_shape_of_slice_dirs labels slice_dirs shape of
        Inl e \<Rightarrow> Inl e
      | Inr sshape \<Rightarrow>
          (if slice_dirs = [] then Inr ([1], [1], [1])
           else
             Inr (map (\<lambda>dim. prod_list (take dim sshape)) [0..<length slice_dirs],
                  map (\<lambda>dim. sshape ! dim) [0..<length slice_dirs],
                  map (\<lambda>dim. prod_list (drop (dim + 1) sshape)) [0..<length slice_dirs])))"

text \<open>\<^verbatim>\<open>np.ravel(np.kron(values, np.ones((r, c))))\<close>: the one-dimensional \<open>values\<close> are
  promoted to a single row, so the product has \<open>r\<close> rows, each holding every value \<open>c\<close>
  times in a row; \<open>ravel\<close> lays the rows out one after the other.\<close>

definition kron_ones :: "int list \<Rightarrow> int \<Rightarrow> int \<Rightarrow> int list" where
  "kron_ones values r c =
     concat (replicate (nat r) (concat (map (\<lambda>v. replicate (nat c) v) values)))"

text \<open>The pattern side of the plugin data: the slice axes (first = primary), the core
  axes and the fixed axes with their pinned values.\<close>

record pattern =
  slice_directions :: "nat list"
  core_directions :: "nat list"
  fixed_directions :: "(nat \<times> int) list"

text \<open>The fixed value of an axis is a single number, which \<^verbatim>\<open>np.kron\<close> treats as a
  sequence of one value.\<close>

definition fixed_values :: "pattern \<Rightarrow> (nat \<times> int list) list" where
  "fixed_values pat = map (\<lambda>(d, v). (d, [v])) (fixed_directions pat)"

text \<open>\<^verbatim>\<open>__get_slice_dirs_index\<close>: the loop over the slice axes.\<close>

fun slice_dirs_index_loop ::
  "preview \<Rightarrow> pattern \<Rightarrow> int list \<Rightarrow> int list \<Rightarrow> nat list \<Rightarrow> error + int list list" where
  "slice_dirs_index_loop pv pat chunk repeat [] = Inr []"
| "slice_dirs_index_loop pv pat chunk repeat (d # ds) =
     (case (chunk, repeat) of
        (c # cs, r # rs) \<Rightarrow>
          (case get_slice_dir_index pv (fixed_values pat) d of
             Inl e \<Rightarrow> Inl e
           | Inr values \<Rightarrow>
               (case slice_dirs_index_loop pv pat cs rs ds of
                  Inl e \<Rightarrow> Inl e
                | Inr rest \<Rightarrow> Inr (kron_ones values r c # rest)))
      | _ \<Rightarrow> Inl IndexError)"

definition get_slice_dirs_index ::
  "preview \<Rightarrow> pattern \<Rightarrow> int list \<Rightarrow> dimlen list \<Rightarrow> error + int list list" where
  "get_slice_dirs_index pv pat labels shape =
     (case chunk_length_repeat labels (slice_directions pat) shape of
        Inl e \<Rightarrow> Inl e
      | Inr (chunk, len, repeat) \<Rightarrow>
          slice_dirs_index_loop pv pat chunk repeat (slice_directions pat))"

subsection \<open>Building the flat window sequence\<close>

text \<open>\<^verbatim>\<open>__get_core_slices\<close>. \<^verbatim>\<open>int(chunks[c]/2)\<close> is the floor of half the chunk.\<close>

fun get_core_slices :: "preview \<Rightarrow> nat list \<Rightarrow> error + selector list" where
  "get_core_slices pv [] = Inr []"
| "get_core_slices pv (c # cs) =
     (if c < length (chunks pv) \<and> c < length (starts pv)
         \<and> c < length (stops pv) \<and> c < length (steps pv)
      then
        (case
           (if chunks pv ! c > 1 then
              (if stops pv ! c - starts pv ! c = 1 then
                 (let start = starts pv ! c - chunks pv ! c div 2 in
                  if start < 0 then Inl InvalidSliceError
                  else
                    (let stop = starts pv ! c + (chunks pv ! c - chunks pv ! c div 2)
                     in Inr (Slice (Some start) (Some stop) (Some 1))))
               else Inl UnsupportedPatternError)
            else Inr (Slice (Some (starts pv ! c)) (Some (stops pv ! c)) (Some (steps pv ! c))))
         of
           Inl e \<Rightarrow> Inl e
         | Inr sl \<Rightarrow>
             (case get_core_slices pv cs of
                Inl e \<Rightarrow> Inl e
              | Inr rest \<Rightarrow> Inr (sl # rest)))
      else Inl IndexError)"

text \<open>Item assignment \<^verbatim>\<open>getitem[d] = v\<close> for an axis number \<open>d\<close>, and a run of such
  assignments in order.\<close>

definition set_item :: "'a list \<Rightarrow> nat \<Rightarrow> 'a \<Rightarrow> error + 'a list" where
  "set_item xs d v = (if d < length xs then Inr (xs[d := v]) else Inl IndexError)"

fun set_items :: "'a list \<Rightarrow> (nat \<times> 'a) list \<Rightarrow> error + 'a list" where
  "set_items xs [] = Inr xs"
| "set_items xs ((d, v) # dvs) =
     (case set_item xs d v of
        Inl e \<Rightarrow> Inl e
      | Inr xs' \<Rightarrow> set_items xs' dvs)"

text \<open>The element \<^verbatim>\<open>index[sdir, i]\<close> of the index array.\<close>

definition index_at :: "int list list \<Rightarrow> nat \<Rightarrow> nat \<Rightarrow> error + int" where
  "index_at index sdir i =
     (if sdir < length index \<and> i < length (index ! sdir) then Inr (index ! sdir ! i)
      else Inl IndexError)"

fun slice_dir_items ::
  "int list list \<Rightarrow> nat \<Rightarrow> nat \<Rightarrow> nat list \<Rightarrow> error + (nat \<times> selector) list" where
  "slice_dir_items index i sdir [] = Inr []"
| "slice_dir_items index i sdir (d # ds) =
     (case index_at index sdir i of
        Inl e \<Rightarrow> Inl e
      | Inr v \<Rightarrow>
          (case slice_dir_items index i (Suc sdir) ds of
             Inl e \<Rightarrow> Inl e
           | Inr rest \<Rightarrow> Inr ((d, Slice (Some v) (Some (v + 1)) (Some 1)) # rest)))"

text \<open>The body of the loop of \<^verbatim>\<open>_single_slice_list\<close> for window number \<open>i\<close>: all axes
  selected in full, then the core axes, the fixed axes and the slice axes assigned in
  that order.\<close>

definition single_slice ::
  "pattern \<Rightarrow> nat \<Rightarrow> selector list \<Rightarrow> int list list \<Rightarrow> nat \<Rightarrow> error + window" where
  "single_slice pat nDims core_slice index i =
     (case set_items (replicate nDims (Slice None None None))
             (zip (core_directions pat) core_slice) of
        Inl e \<Rightarrow> Inl e
      | Inr g1 \<Rightarrow>
          (case set_items g1
                  (map (\<lambda>(d, v). (d, Slice (Some v) (Some (v + 1)) (Some 1)))
                     (fixed_directions pat)) of
             Inl e \<Rightarrow> Inl e
           | Inr g2 \<Rightarrow>
               (case slice_dir_items index i 0 (slice_directions pat) of
                  Inl e \<Rightarrow> Inl e
                | Inr items \<Rightarrow> set_items g2 items)))"

fun single_slices ::
  "pattern \<Rightarrow> nat \<Rightarrow> selector list \<Rightarrow> int list list \<Rightarrow> nat list \<Rightarrow> error + window list" where
  "single_slices pat nDims core_slice index [] = Inr []"
| "single_slices pat nDims core_slice index (i # is) =
     (case single_slice pat nDims core_slice index i of
        Inl e \<Rightarrow> Inl e
      | Inr w \<Rightarrow>
          (case single_slices pat nDims core_slice index is of
             Inl e \<Rightarrow> Inl e
           | Inr ws \<Rightarrow> Inr (w # ws)))"

text \<open>\<^verbatim>\<open>__remove_var_length_dimension\<close>: the selector of the first variable axis is
  deleted from every window.\<close>

fun var_index :: "dimlen list \<Rightarrow> nat" where
  "var_index [] = 0"
| "var_index (d # ds) = (if d = Var then 0 else Suc (var_index ds))"

definition remove_var_length_dimension :: "dimlen list \<Rightarrow> window list \<Rightarrow> window list" where
  "remove_var_length_dimension shape slice_list =
     (if Var \<in> set shape then
        (let var_dim = var_index shape
         in map (\<lambda>sl. take var_dim sl @ drop (Suc var_dim) sl) slice_list)
      else slice_list)"

text \<open>\<^verbatim>\<open>index.shape[1] if index.size else len(fix_dirs)\<close>: rows of different lengths do not
  make a two-dimensional array, and \<^verbatim>\<open>shape[1]\<close> raises.\<close>

definition n_slices :: "pattern \<Rightarrow> int list list \<Rightarrow> error + nat" where
  "n_slices pat index =
     (if sum_list (map length index) = 0 then Inr (length (fixed_directions pat))
      else if \<forall>row \<in> set index. length row = length (hd index) then Inr (length (hd index))
      else Inl IndexError)"

text \<open>\<^verbatim>\<open>_single_slice_list\<close>.\<close>

definition single_slice_list ::
  "preview \<Rightarrow> pattern \<Rightarrow> int list \<Rightarrow> dimlen list \<Rightarrow> error + window list" where
  "single_slice_list pv pat labels shape =
     (case get_slice_dirs_index pv pat labels shape of
        Inl e \<Rightarrow> Inl e
      | Inr index \<Rightarrow>
          (case n_slices pat index of
             Inl e \<Rightarrow> Inl e
           | Inr nSlices \<Rightarrow>
               (case get_core_slices pv (core_directions pat) of
                  Inl e \<Rightarrow> Inl e
                | Inr core_slice \<Rightarrow>
                    (case single_slices pat (length shape) core_slice index [0..<nSlices] of
                       Inl e \<Rightarrow> Inl e
                     | Inr slice_list \<Rightarrow> Inr (remove_var_length_dimension shape slice_list)))))"

subsection \<open>Grouping windows into batches\<close>

text \<open>\<^verbatim>\<open>__split_list\<close>: \<^verbatim>\<open>[the_list[x:x+size] for x in xrange(0, len(the_list), size)]\<close>.
  \<^verbatim>\<open>xrange\<close> refuses a zero step.\<close>

definition split_list :: "'a list \<Rightarrow> int \<Rightarrow> error + 'a list list" where
  "split_list the_list sz =
     (if sz = 0 then Inl ValueError
      else Inr (map (\<lambda>x. take (nat sz) (drop (nat x) the_list))
                  (arange 0 (int (length the_list)) sz)))"

text \<open>\<^verbatim>\<open>__banked_list\<close>.\<close>

definition banked_list ::
  "pattern \<Rightarrow> int list \<Rightarrow> dimlen list \<Rightarrow> window list \<Rightarrow> error + window list list" where
  "banked_list pat labels shape slice_list =
     (case chunk_length_repeat labels (slice_directions pat) shape of
        Inl e \<Rightarrow> Inl e
      | Inr (chunk, len, repeat) \<Rightarrow>
          (case len of
             [] \<Rightarrow> Inl IndexError
           | l0 # _ \<Rightarrow> split_list slice_list l0))"

text \<open>The attributes \<^verbatim>\<open>.start\<close> and \<^verbatim>\<open>.stop\<close> of the selector of axis \<open>d\<close> of a window.\<close>

definition slice_start :: "window \<Rightarrow> nat \<Rightarrow> error + int option" where
  "slice_start w d =
     (if d < length w then
        (case w ! d of Slice a b c \<Rightarrow> Inr a | Index i \<Rightarrow> Inl AttributeError)
      else Inl IndexError)"

definition slice_stop :: "window \<Rightarrow> nat \<Rightarrow> error + int option" where
  "slice_stop w d =
     (if d < length w then
        (case w ! d of Slice a b c \<Rightarrow> Inr b | Index i \<Rightarrow> Inl AttributeError)
      else Inl IndexError)"

text \<open>The body of the inner loop of \<^verbatim>\<open>__grouped_slice_list\<close> for one sub-group.\<close>

definition group_window :: "preview \<Rightarrow> nat \<Rightarrow> window list \<Rightarrow> error + window" where
  "group_window pv group_dim sub =
     (case sub of
        [] \<Rightarrow> Inl IndexError
      | w0 # _ \<Rightarrow>
          (case slice_start w0 group_dim of
             Inl e \<Rightarrow> Inl e
           | Inr start \<Rightarrow>
               (case slice_stop (last sub) group_dim of
                  Inl e \<Rightarrow> Inl e
                | Inr stop \<Rightarrow>
                    (if group_dim < length (steps pv)
                     then set_item w0 group_dim (Slice start stop (Some (steps pv ! group_dim)))
                     else Inl IndexError))))"

fun group_windows :: "preview \<Rightarrow> nat \<Rightarrow> window list list \<Rightarrow> error + window list" where
  "group_windows pv group_dim [] = Inr []"
| "group_windows pv group_dim (sub # subs) =
     (case group_window pv group_dim sub of
        Inl e \<Rightarrow> Inl e
      | Inr w \<Rightarrow>
          (case group_windows pv group_dim subs of
             Inl e \<Rightarrow> Inl e
           | Inr ws \<Rightarrow> Inr (w # ws)))"

text \<open>The outer loop over the banks.\<close>

fun group_banks :: "preview \<Rightarrow> nat \<Rightarrow> int \<Rightarrow> window list list \<Rightarrow> error + window list" where
  "group_banks pv group_dim max_frames [] = Inr []"
| "group_banks pv group_dim max_frames (bank # banked) =
     (case split_list bank max_frames of
        Inl e \<Rightarrow> Inl e
      | Inr sub_groups \<Rightarrow>
          (case group_windows pv group_dim sub_groups of
             Inl e \<Rightarrow> Inl e
           | Inr ws \<Rightarrow>
               (case group_banks pv group_dim max_frames banked of
                  Inl e \<Rightarrow> Inl e
                | Inr rest \<Rightarrow> Inr (ws @ rest))))"

text \<open>\<^verbatim>\<open>__grouped_slice_list\<close>. The primary slice axis is read with
  \<^verbatim>\<open>get_slice_directions()[0]\<close> before the loop starts.\<close>

definition grouped_slice_list ::
  "preview \<Rightarrow> pattern \<Rightarrow> int list \<Rightarrow> dimlen list \<Rightarrow> window list \<Rightarrow> int \<Rightarrow> error + window list" where
  "grouped_slice_list pv pat labels shape slice_list max_frames =
     (case banked_list pat labels shape slice_list of
        Inl e \<Rightarrow> Inl e
      | Inr banked \<Rightarrow>
          (case slice_directions pat of
             [] \<Rightarrow> Inl IndexError
           | group_dim # _ \<Rightarrow> group_banks pv group_dim max_frames banked))"

text \<open>\<^verbatim>\<open>_get_grouped_slice_list\<close>. \<^verbatim>\<open>_single_slice_list\<close> returns a list whenever it
  returns, so the test \<^verbatim>\<open>sl is None\<close> that guards the "does not support slicing"
  exception never succeeds.\<close>

definition get_grouped_slice_list ::
  "preview \<Rightarrow> pattern \<Rightarrow> int list \<Rightarrow> dimlen list \<Rightarrow> int option \<Rightarrow> error + window list" where
  "get_grouped_slice_list pv pat labels shape frame_chunk =
     (let max_frames = (case frame_chunk of None \<Rightarrow> 1 | Some m \<Rightarrow> m) in
      case map_sum id Some (single_slice_list pv pat labels shape) of
        Inl e \<Rightarrow> Inl e
      | Inr None \<Rightarrow> Inl UnsupportedPatternError
      | Inr (Some sl) \<Rightarrow> grouped_slice_list pv pat labels shape sl max_frames)"

subsection \<open>Distribution over processes\<close>

text \<open>\<^verbatim>\<open>np.array_split(ary, n)\<close> on a one-dimensional array: the first \<open>len mod n\<close>
  sections hold \<open>len div n + 1\<close> items, the others \<open>len div n\<close>; the sections are cut at the
  running sums of the sizes.\<close>

fun cumsum_from :: "nat \<Rightarrow> nat list \<Rightarrow> nat list" where
  "cumsum_from acc [] = []"
| "cumsum_from acc (x # xs) = (acc + x) # cumsum_from (acc + x) xs"

definition array_split :: "'a list \<Rightarrow> nat \<Rightarrow> error + 'a list list" where
  "array_split ary nsections =
     (if nsections = 0 then Inl ValueError
      else
        (let neach = length ary div nsections;
             extras = length ary mod nsections;
             section_sizes = [0] @ replicate extras (neach + 1)
                                @ replicate (nsections - extras) neach;
             div_points = cumsum_from 0 section_sizes
         in Inr (map (\<lambda>i. take (div_points ! (i + 1) - div_points ! i)
                             (drop (div_points ! i) ary))
                   [0..<nsections])))"

text \<open>The distribution step of \<^verbatim>\<open>_get_slice_list_per_process\<close>, from the grouped slice
  list on. An empty \<^verbatim>\<open>frames\<close> makes \<^verbatim>\<open>frames[0]\<close> raise \<^verbatim>\<open>IndexError\<close>, which is caught.
  A rank beyond the sections raises the same exception before \<^verbatim>\<open>frames\<close> is bound, and
  the \<^verbatim>\<open>return\<close> then fails.\<close>

definition slice_list_per_process ::
  "'w list \<Rightarrow> nat \<Rightarrow> nat \<Rightarrow> error + ('w list \<times> nat list)" where
  "slice_list_per_process slice_list nprocesses process =
     (let frame_index = [0..<length slice_list] in
      case array_split frame_index nprocesses of
        Inl e \<Rightarrow> Inl e
      | Inr sections \<Rightarrow>
          (if process < length sections then
             (let frames = sections ! process in
              if frames = [] then Inr ([], frames)
              else Inr (take (last frames + 1 - hd frames) (drop (hd frames) slice_list),
                        frames))
           else Inl UnboundLocalError))"

subsection \<open>Padding arithmetic\<close>

text \<open>One axis' entry of the padding directions: \<^verbatim>\<open>{'before': b, 'after': a}\<close>.\<close>

record pad_amount =
  before :: int
  after :: int

text \<open>\<^verbatim>\<open>__calculate_slice_padding\<close>. An integer selector is first turned into a slice.
  With \<^verbatim>\<open>sl.start\<close> absent, \<^verbatim>\<open>minval\<close> is \<^verbatim>\<open>None\<close>, the test \<^verbatim>\<open>minval < 0\<close> succeeds
  and \<^verbatim>\<open>0 - minval\<close> raises; with \<^verbatim>\<open>sl.stop\<close> absent, \<^verbatim>\<open>maxval > data_stop\<close> is false
  and the requested after-pad is kept. A number is never greater than the marker
  \<^verbatim>\<open>'var'\<close>.\<close>

definition pad_bounds ::
  "int option \<Rightarrow> int option \<Rightarrow> int option \<Rightarrow> pad_amount \<Rightarrow> dimlen
     \<Rightarrow> error + (selector \<times> (int \<times> int))" where
  "pad_bounds start stop step pad data_stop =
     (let minval = map_option (\<lambda>s. s - before pad) start;
          maxval = map_option (\<lambda>s. s + after pad) stop;
          minpad = (if minval = None then before pad else 0);
          maxpad = (if maxval = None then after pad else 0)
      in case minval of
           None \<Rightarrow> Inl TypeError
         | Some mn \<Rightarrow>
             (let (minpad, minval) = (if mn < 0 then (0 - mn, 0) else (minpad, mn));
                  (maxpad, maxval) =
                     (case (maxval, data_stop) of
                        (Some mx, Len n) \<Rightarrow>
                          (if mx > n then (mx - n, Some n) else (maxpad, Some mx))
                      | _ \<Rightarrow> (maxpad, maxval))
              in Inr (Slice (Some minval) maxval step, (minpad, maxpad))))"

fun calculate_slice_padding ::
  "selector \<Rightarrow> pad_amount \<Rightarrow> dimlen \<Rightarrow> error + (selector \<times> (int \<times> int))" where
  "calculate_slice_padding (Index i) pad data_stop =
     pad_bounds (Some i) (Some (i + 1)) (Some 1) pad data_stop"
| "calculate_slice_padding (Slice start stop step) pad data_stop =
     pad_bounds start stop step pad data_stop"

subsection \<open>Arrays\<close>

text \<open>An n-dimensional array is its shape and its elements in row-major order, as numpy
  stores them.\<close>

record 'a ndarray =
  shape :: "nat list"
  flat :: "'a list"

text \<open>The positions a Python slice selects on an axis of length \<open>n\<close>
  (\<^verbatim>\<open>slice.indices\<close>): negative bounds count from the end, bounds are clamped to the axis,
  an absent bound is the end of the axis in the direction of the step.\<close>

definition slice_indices ::
  "int option \<Rightarrow> int option \<Rightarrow> int option \<Rightarrow> nat \<Rightarrow> error + nat list" where
  "slice_indices start stop step n =
     (let st = (case step of None \<Rightarrow> 1 | Some s \<Rightarrow> s) in
      if st = 0 then Inl ValueError
      else
        (let lower = (if st < 0 then - 1 else 0);
             upper = (if st < 0 then int n - 1 else int n);
             clamp = (\<lambda>v. if v < 0 then max (v + int n) lower else min v upper);
             a = (case start of None \<Rightarrow> (if st < 0 then upper else lower) | Some v \<Rightarrow> clamp v);
             b = (case stop of None \<Rightarrow> (if st < 0 then lower else upper) | Some v \<Rightarrow> clamp v)
         in Inr (map nat (arange a b st))))"

text \<open>The positions each selector of an index tuple picks on its axis, and whether the
  axis survives (an integer index removes it).\<close>

fun resolve :: "selector list \<Rightarrow> nat list \<Rightarrow> error + (nat list \<times> bool) list" where
  "resolve [] sh = Inr []"
| "resolve (sel # sels) [] = Inl IndexError"
| "resolve (Slice a b c # sels) (n # sh) =
     (case slice_indices a b c n of
        Inl e \<Rightarrow> Inl e
      | Inr idx \<Rightarrow>
          (case resolve sels sh of
             Inl e \<Rightarrow> Inl e
           | Inr r \<Rightarrow> Inr ((idx, True) # r)))"
| "resolve (Index i # sels) (n # sh) =
     (let j = (if i < 0 then i + int n else i) in
      if 0 \<le> j \<and> j < int n then
        (case resolve sels sh of
           Inl e \<Rightarrow> Inl e
         | Inr r \<Rightarrow> Inr (([nat j], False) # r))
      else Inl IndexError)"

text \<open>The elements at the given positions of each leading axis, in row-major order; the
  block of position \<open>i\<close> of the first axis is the \<open>i\<close>-th run of \<open>prod_list sh\<close>
  elements.\<close>

fun gather :: "nat list list \<Rightarrow> nat list \<Rightarrow> 'a list \<Rightarrow> 'a list" where
  "gather [] sh xs = xs"
| "gather (idx # idxs) [] xs = xs"
| "gather (idx # idxs) (n # sh) xs =
     concat (map (\<lambda>i. gather idxs sh (take (prod_list sh) (drop (i * prod_list sh) xs))) idx)"

text \<open>Basic indexing \<^verbatim>\<open>data[tuple(selectors)]\<close>.\<close>

definition getitem :: "selector list \<Rightarrow> 'a ndarray \<Rightarrow> error + 'a ndarray" where
  "getitem sels arr =
     (case resolve sels (shape arr) of
        Inl e \<Rightarrow> Inl e
      | Inr r \<Rightarrow>
          Inr \<lparr>shape = map (\<lambda>(idx, keep). length idx) (filter snd r)
                          @ drop (length sels) (shape arr),
               flat = gather (map fst r) (shape arr) (flat arr)\<rparr>)"

text \<open>\<^verbatim>\<open>np.pad(arr, pad_width, mode='edge')\<close>: position \<open>k\<close> of a padded axis holds
  position \<open>k - before\<close> of the axis, clamped to the axis. One pair of widths is used for
  every axis; otherwise there is one pair per axis. Negative widths and widening an
  empty axis are refused.\<close>

definition edge_indices :: "nat \<Rightarrow> nat \<Rightarrow> nat \<Rightarrow> nat list" where
  "edge_indices b a n = replicate b 0 @ [0..<n] @ replicate a (n - 1)"

definition np_pad_edge :: "(int \<times> int) list \<Rightarrow> 'a ndarray \<Rightarrow> error + 'a ndarray" where
  "np_pad_edge pad_width arr =
     (let widths = (if length pad_width = 1 then replicate (length (shape arr)) (hd pad_width)
                    else pad_width)
      in if pad_width = [] \<or> length widths \<noteq> length (shape arr) then Inl ValueError
         else if \<exists>(b, a) \<in> set widths. b < 0 \<or> a < 0 then Inl ValueError
         else if \<exists>((b, a), n) \<in> set (zip widths (shape arr)). n = 0 \<and> (0 < b \<or> 0 < a)
           then Inl ValueError
         else
           Inr \<lparr>shape = map (\<lambda>((b, a), n). nat b + n + nat a) (zip widths (shape arr)),
                flat = gather (map (\<lambda>((b, a), n). edge_indices (nat b) (nat a) n)
                                 (zip widths (shape arr)))
                         (shape arr) (flat arr)\<rparr>)"

subsection \<open>The padding specification and its state\<close>

text \<open>The padding directions of a \<^verbatim>\<open>Padding\<close> object, a dictionary from axis to pad
  amounts, kept as an association list.\<close>

type_synonym padding_dirs = "(nat \<times> pad_amount) list"

text \<open>\<^verbatim>\<open>pData.padding\<close> is \<^verbatim>\<open>None\<close>, the dictionary the plugin requested (method name and
  argument of the \<^verbatim>\<open>Padding\<close> methods to call) or a \<^verbatim>\<open>Padding\<close> object.\<close>

datatype 'v padding = NoPadding | RawPadding "(string \<times> 'v) list" | PaddingObj padding_dirs

record 'v plugin_data =
  pattern_of :: pattern
  frame_chunk :: "int option"
  padding :: "'v padding"
  pad_dict :: "(string \<times> 'v) list option"
  end_pad :: bool
  fixed_dims :: bool

text \<open>The class \<^verbatim>\<open>Padding\<close> of \<^verbatim>\<open>savu.data.data_structures.data_add_ons\<close> is imported, not
  defined, by the module. It enters as a parameter: the directions of a fresh
  \<^verbatim>\<open>Padding(pData.get_pattern())\<close> and the effect on the directions of calling the method
  of a given name with a given argument.\<close>

record 'v padding_class =
  new_padding :: padding_dirs
  call_method :: "string \<Rightarrow> 'v \<Rightarrow> padding_dirs \<Rightarrow> error + padding_dirs"

text \<open>Modelled from the spec: the method \<^verbatim>\<open>Padding._pad_direction\<close>, called with the
  string \<^verbatim>\<open>'<axis>.after.<diff>'\<close>, is missing from the sources; the spec says it installs
  an extra "after" pad on that axis equal to the shortfall.\<close>

fun pad_direction_after :: "nat \<Rightarrow> int \<Rightarrow> padding_dirs \<Rightarrow> padding_dirs" where
  "pad_direction_after d diff [] = [(d, \<lparr>before = 0, after = diff\<rparr>)]"
| "pad_direction_after d diff ((k, p) # dirs) =
     (if k = d then (k, p\<lparr>after := after p + diff\<rparr>) # dirs
      else (k, p) # pad_direction_after d diff dirs)"

text \<open>Python truth values: \<^verbatim>\<open>None\<close> and the empty dictionary are false, an object is
  true.\<close>

fun truthy :: "'v padding \<Rightarrow> bool" where
  "truthy NoPadding = False"
| "truthy (RawPadding r) = (r \<noteq> [])"
| "truthy (PaddingObj d) = True"

text \<open>The loop \<^verbatim>\<open>for key in pData.pad_dict.keys(): getattr(pData.padding, key)(...)\<close>.\<close>

fun call_methods ::
  "'v padding_class \<Rightarrow> (string \<times> 'v) list \<Rightarrow> padding_dirs \<Rightarrow> error + padding_dirs" where
  "call_methods cls [] dirs = Inr dirs"
| "call_methods cls ((key, v) # kvs) dirs =
     (case call_method cls key v dirs of
        Inl e \<Rightarrow> Inl e
      | Inr dirs' \<Rightarrow> call_methods cls kvs dirs')"

text \<open>\<^verbatim>\<open>__set_padding_dict\<close>.\<close>

definition set_padding_dict ::
  "'v padding_class \<Rightarrow> 'v plugin_data \<Rightarrow> error + 'v plugin_data" where
  "set_padding_dict cls pData =
     (case padding pData of
        RawPadding r \<Rightarrow>
          (if r \<noteq> [] then
             (case call_methods cls r (new_padding cls) of
                Inl e \<Rightarrow> Inl e
              | Inr dirs \<Rightarrow> Inr (pData\<lparr>pad_dict := Some r, padding := PaddingObj dirs\<rparr>))
           else Inr pData)
      | _ \<Rightarrow> Inr pData)"

text \<open>\<^verbatim>\<open>correct_pad\<close>.\<close>

definition correct_pad ::
  "'v padding_class \<Rightarrow> 'v plugin_data \<Rightarrow> error + 'v plugin_data" where
  "correct_pad cls pData =
     (case
        (case pad_dict pData of
           Some r \<Rightarrow>
             (if r \<noteq> [] then set_padding_dict cls (pData\<lparr>padding := RawPadding r\<rparr>)
              else Inr (pData\<lparr>padding := NoPadding\<rparr>))
         | None \<Rightarrow> Inr (pData\<lparr>padding := NoPadding\<rparr>))
      of
        Inl e \<Rightarrow> Inl e
      | Inr pData' \<Rightarrow> Inr (pData'\<lparr>end_pad := False\<rparr>))"

text \<open>\<^verbatim>\<open>__matching_dims\<close>. \<^verbatim>\<open>range\<close> wants three integers and a step other than zero.\<close>

definition matching_dims ::
  "'v padding_class \<Rightarrow> 'v plugin_data \<Rightarrow> window \<Rightarrow> error + 'v plugin_data" where
  "matching_dims cls pData0 slice_list =
     (let pData = pData0\<lparr>end_pad := True\<rparr> in
      case slice_directions (pattern_of pData) of
        [] \<Rightarrow> Inl IndexError
      | slice_dir # _ \<Rightarrow>
          (if slice_dir < length slice_list then
             (case (slice_list ! slice_dir, frame_chunk pData) of
                (Index i, _) \<Rightarrow> Inl AttributeError
              | (Slice (Some start) (Some stop) (Some step), Some max_frames) \<Rightarrow>
                  (if step = 0 then Inl ValueError
                   else
                     (let diff = max_frames - int (length (arange start stop step)) in
                      if diff \<noteq> 0 then
                        (case (if \<not> truthy (padding pData) then PaddingObj (new_padding cls)
                               else padding pData) of
                           PaddingObj dirs \<Rightarrow>
                             Inr (pData\<lparr>padding :=
                                     PaddingObj (pad_direction_after slice_dir diff dirs)\<rparr>)
                         | _ \<Rightarrow> Inl AttributeError)
                      else Inr pData))
              | _ \<Rightarrow> Inl TypeError)
           else Inl IndexError))"

subsection \<open>Padded reads and the inverse crop\<close>

text \<open>The loop of \<^verbatim>\<open>_get_padded_slice_data\<close> over the keys of the padding directions.\<close>

fun pad_slices ::
  "padding_dirs \<Rightarrow> dimlen list \<Rightarrow> window \<Rightarrow> (int \<times> int) list
     \<Rightarrow> error + (window \<times> (int \<times> int) list)" where
  "pad_slices [] shp slice_list pad_list = Inr (slice_list, pad_list)"
| "pad_slices ((ddir, pDict) # dirs) shp slice_list pad_list =
     (if ddir < length slice_list \<and> ddir < length shp then
        (case calculate_slice_padding (slice_list ! ddir) pDict (shp ! ddir) of
           Inl e \<Rightarrow> Inl e
         | Inr (sl, pd) \<Rightarrow>
             (if ddir < length pad_list
              then pad_slices dirs shp (slice_list[ddir := sl]) (pad_list[ddir := pd])
              else Inl IndexError))
      else Inl IndexError)"

text \<open>The loop of \<^verbatim>\<open>__get_pad_data\<close>. The test on an integer selector reads the
  before-pad twice.\<close>

fun pad_data_lists ::
  "window \<Rightarrow> (int \<times> int) list \<Rightarrow> error + (window \<times> (int \<times> int) list)" where
  "pad_data_lists [] pad_tup = Inr ([], [])"
| "pad_data_lists (sel # slice_tup) [] = Inl IndexError"
| "pad_data_lists (sel # slice_tup) (pd # pad_tup) =
     (case pad_data_lists slice_tup pad_tup of
        Inl e \<Rightarrow> Inl e
      | Inr (slice_list, pad_list) \<Rightarrow>
          (case sel of
             Slice a b c \<Rightarrow> Inr (sel # slice_list, pd # pad_list)
           | Index i \<Rightarrow>
               (if fst pd = 0 \<and> fst pd = 0 then Inr (sel # slice_list, pad_list)
                else Inr (Slice (Some i) (Some (i + 1)) (Some 1) # slice_list, pd # pad_list))))"

definition get_pad_data ::
  "'a ndarray \<Rightarrow> window \<Rightarrow> (int \<times> int) list \<Rightarrow> error + 'a ndarray" where
  "get_pad_data data slice_tup pad_tup =
     (case pad_data_lists slice_tup pad_tup of
        Inl e \<Rightarrow> Inl e
      | Inr (slice_list, pad_list) \<Rightarrow>
          (case getitem slice_list data of
             Inl e \<Rightarrow> Inl e
           | Inr data_slice \<Rightarrow> np_pad_edge pad_list data_slice))"

text \<open>\<^verbatim>\<open>_get_padded_slice_data\<close>. \<open>shp\<close> is the value of
  \<^verbatim>\<open>self.orig_shape if self.orig_shape else self.get_shape()\<close>.\<close>

definition get_padded_slice_data ::
  "'v padding_class \<Rightarrow> dimlen list \<Rightarrow> 'a ndarray \<Rightarrow> 'v plugin_data \<Rightarrow> window
     \<Rightarrow> error + ('v plugin_data \<times> 'a ndarray)" where
  "get_padded_slice_data cls shp data pData0 input_slice_list =
     (case (if fixed_dims pData0 then matching_dims cls pData0 input_slice_list
            else Inr pData0) of
        Inl e \<Rightarrow> Inl e
      | Inr pData \<Rightarrow>
          (if \<not> truthy (padding pData) then
             (case getitem input_slice_list data of
                Inl e \<Rightarrow> Inl e
              | Inr block \<Rightarrow> Inr (pData, block))
           else
             (case padding pData of
                PaddingObj padding_dict \<Rightarrow>
                  (case pad_slices padding_dict shp input_slice_list
                          (replicate (length input_slice_list) (0, 0)) of
                     Inl e \<Rightarrow> Inl e
                   | Inr (slice_list, pad_list) \<Rightarrow>
                       (case (if end_pad pData then correct_pad cls pData else Inr pData) of
                          Inl e \<Rightarrow> Inl e
                        | Inr pData' \<Rightarrow>
                            (case get_pad_data data slice_list pad_list of
                               Inl e \<Rightarrow> Inl e
                             | Inr block \<Rightarrow> Inr (pData', block))))
              | _ \<Rightarrow> Inl AttributeError)))"

text \<open>The loop of \<^verbatim>\<open>_get_unpadded_slice_data\<close> that builds the crop.\<close>

fun unpad_slices :: "padding_dirs \<Rightarrow> nat list \<Rightarrow> window \<Rightarrow> error + window" where
  "unpad_slices [] padded_shape new_slice = Inr new_slice"
| "unpad_slices ((ddir, pDict) # dirs) padded_shape new_slice =
     (case (if after pDict = 0 then
              (if ddir < length padded_shape then Inr (int (padded_shape ! ddir))
               else Inl IndexError)
            else Inr (- after pDict)) of
        Inl e \<Rightarrow> Inl e
      | Inr end \<Rightarrow>
          (if ddir < length new_slice
           then unpad_slices dirs padded_shape
                  (new_slice[ddir := Slice (Some (before pDict)) (Some end) (Some 1)])
           else Inl IndexError))"

text \<open>\<^verbatim>\<open>_get_unpadded_slice_data\<close>. \<open>nDims\<close> is \<^verbatim>\<open>len(self.get_shape())\<close>.\<close>

definition get_unpadded_slice_data ::
  "'v padding_class \<Rightarrow> nat \<Rightarrow> 'v plugin_data \<Rightarrow> window \<Rightarrow> 'a ndarray
     \<Rightarrow> error + ('v plugin_data \<times> 'a ndarray)" where
  "get_unpadded_slice_data cls nDims pData0 input_slice_list padded_data =
     (case (if fixed_dims pData0 then matching_dims cls pData0 input_slice_list
            else Inr pData0) of
        Inl e \<Rightarrow> Inl e
      | Inr pData \<Rightarrow>
          (if \<not> truthy (padding pData) then Inr (pData, padded_data)
           else
             (case padding pData of
                PaddingObj padding_dict \<Rightarrow>
                  (case unpad_slices padding_dict (shape padded_data)
                          (replicate nDims (Slice None None None)) of
                     Inl e \<Rightarrow> Inl e
                   | Inr new_slice \<Rightarrow>
                       (case (if end_pad pData then correct_pad cls pData else Inr pData) of
                          Inl e \<Rightarrow> Inl e
                        | Inr pData' \<Rightarrow>
                            (case getitem new_slice padded_data of
                               Inl e \<Rightarrow> Inl e
                             | Inr block \<Rightarrow> Inr (pData', block))))
              | _ \<Rightarrow> Inl AttributeError)))"

text \<open>\<^verbatim>\<open>_get_slice_list_per_process\<close>: the padding dictionary is set, the grouped slice
  list built and the share of the process cut out.\<close>

definition get_slice_list_per_process ::
  "'v padding_class \<Rightarrow> preview \<Rightarrow> int list \<Rightarrow> dimlen list \<Rightarrow> 'v plugin_data \<Rightarrow> nat \<Rightarrow> nat
     \<Rightarrow> error + ('v plugin_data \<times> window list \<times> nat list)" where
  "get_slice_list_per_process cls pv labels shp pData0 nprocesses process =
     (case set_padding_dict cls pData0 of
        Inl e \<Rightarrow> Inl e
      | Inr pData \<Rightarrow>
          (case get_grouped_slice_list pv (pattern_of pData) labels shp (frame_chunk pData) of
             Inl e \<Rightarrow> Inl e
           | Inr slice_list \<Rightarrow>
               (case slice_list_per_process slice_list nprocesses process of
                  Inl e \<Rightarrow> Inl e
                | Inr (process_slice_list, frames) \<Rightarrow>
                    Inr (pData, process_slice_list, frames))))"

section \<open>Reference descriptions\<close>

text \<open>The positions of a chunked slice axis as the specification words them: for each
  step point in turn, the \<open>c\<close> positions from \<open>- (c div 2)\<close> to \<open>c - c div 2 - 1\<close> around
  it.\<close>

definition centred_positions :: "int list \<Rightarrow> int \<Rightarrow> int list" where
  "centred_positions pts c = concat (map (\<lambda>p. map (\<lambda>j. p + j - c div 2) [0..c - 1]) pts)"

text \<open>The crop of the inverse operation, axis by axis: an axis without padding is kept
  whole; a padded axis starts at its before-pad and stops at the extent of the padded
  block when the after-pad is zero, at minus the after-pad otherwise.\<close>

definition crop_window :: "padding_dirs \<Rightarrow> nat list \<Rightarrow> nat \<Rightarrow> window" where
  "crop_window dirs padded_shape nDims =
     map (\<lambda>d. case map_of dirs d of
                 None \<Rightarrow> Slice None None None
               | Some p \<Rightarrow>
                   Slice (Some (before p))
                     (Some (if after p = 0 then int (padded_shape ! d) else - after p))
                     (Some 1))
       [0..<nDims]"

text \<open>The balanced split of \<open>B\<close> items over \<open>P\<close> ranks: rank \<open>r\<close> owns
  \<open>part_size B P r\<close> consecutive items starting at \<open>part_offset B P r\<close>; the first
  \<open>B mod P\<close> ranks own one item more than the others.\<close>

definition part_size :: "nat \<Rightarrow> nat \<Rightarrow> nat \<Rightarrow> nat" where
  "part_size B P r = B div P + (if r < B mod P then 1 else 0)"

definition part_offset :: "nat \<Rightarrow> nat \<Rightarrow> nat \<Rightarrow> nat" where
  "part_offset B P r = r * (B div P) + min r (B mod P)"

text \<open>Consecutive pieces of at most \<open>n\<close> elements.\<close>

fun pieces :: "nat \<Rightarrow> 'a list \<Rightarrow> 'a list list" where
  "pieces n xs = (if xs = [] \<or> n = 0 then [] else take n xs # pieces n (drop n xs))"

declare pieces.simps [simp del]

text \<open>The batch window of a chunk of windows: the first window of the chunk, with the
  selector of the primary slice axis running from the start of the first window to the
  stop of the last one, in steps of the preview.\<close>

fun sel_start :: "selector \<Rightarrow> int option" where
  "sel_start (Slice a b c) = a"
| "sel_start (Index i) = None"

fun sel_stop :: "selector \<Rightarrow> int option" where
  "sel_stop (Slice a b c) = b"
| "sel_stop (Index i) = None"

fun is_slice :: "selector \<Rightarrow> bool" where
  "is_slice (Slice a b c) = True"
| "is_slice (Index i) = False"

definition batch_window :: "nat \<Rightarrow> int \<Rightarrow> window list \<Rightarrow> window" where
  "batch_window gd step sub =
     (hd sub)[gd := Slice (sel_start (hd sub ! gd)) (sel_stop (last sub ! gd)) (Some step)]"

text \<open>A dataset of shape (3, 2, 4) sliced along its first two axes, used to evaluate the
  definitions.\<close>

definition example_preview :: preview where
  "example_preview =
     \<lparr>starts = [0, 0, 0], stops = [3, 2, 4], steps = [1, 1, 1], chunks = [1, 1, 1]\<rparr>"

definition example_pattern :: pattern where
  "example_pattern =
     \<lparr>slice_directions = [0, 1], core_directions = [2], fixed_directions = []\<rparr>"

definition example_shape :: "dimlen list" where
  "example_shape = [Len 3, Len 2, Len 4]"

definition unit_slice :: "int \<Rightarrow> selector" where
  "unit_slice i = Slice (Some i) (Some (i + 1)) (Some 1)"

definition example_windows :: "window list" where
  "example_windows =
     [[unit_slice 0, unit_slice 0, Slice (Some 0) (Some 4) (Some 1)],
      [unit_slice 1, unit_slice 0, Slice (Some 0) (Some 4) (Some 1)],
      [unit_slice 2, unit_slice 0, Slice (Some 0) (Some 4) (Some 1)],
      [unit_slice 0, unit_slice 1, Slice (Some 0) (Some 4) (Some 1)],
      [unit_slice 1, unit_slice 1, Slice (Some 0) (Some 4) (Some 1)],
      [unit_slice 2, unit_slice 1, Slice (Some 0) (Some 4) (Some 1)]]"




text \<open>The padding directions in force in a state of the plugin data: those of the
  \<^verbatim>\<open>Padding\<close> object, or none.\<close>

fun directions_in_force :: "'v plugin_data \<Rightarrow> padding_dirs option" where
  "directions_in_force pData =
     (case padding pData of PaddingObj dirs \<Rightarrow> Some dirs | _ \<Rightarrow> None)"

text \<open>The pristine states: either there is no padding and no remembered request, or the
  padding is the \<^verbatim>\<open>Padding\<close> object that \<^verbatim>\<open>__set_padding_dict\<close> builds from the remembered
  request.\<close>

definition pristine :: "'v padding_class \<Rightarrow> 'v plugin_data \<Rightarrow> bool" where
  "pristine cls pData =
     (case padding pData of
        NoPadding \<Rightarrow> pad_dict pData = None \<or> pad_dict pData = Some []
      | RawPadding r \<Rightarrow> r = [] \<and> (pad_dict pData = None \<or> pad_dict pData = Some [])
      | PaddingObj dirs \<Rightarrow>
          (case pad_dict pData of
             None \<Rightarrow> False
           | Some r \<Rightarrow> r \<noteq> [] \<and> call_methods cls r (new_padding cls) = Inr dirs))"

text \<open>The padding directions a call on window \<open>w\<close> works with: those in force after the
  frame-length matching that opens the call when the pattern fixes the batch length.\<close>

definition directions_used ::
  "'v padding_class \<Rightarrow> 'v plugin_data \<Rightarrow> window \<Rightarrow> error + padding_dirs option" where
  "directions_used cls pData w =
     (case (if fixed_dims pData then matching_dims cls pData w else Inr pData) of
        Inl e \<Rightarrow> Inl e
      | Inr pData' \<Rightarrow> Inr (directions_in_force pData'))"

text \<open>A one-dimensional dataset of ten frames, read in batches of four frames with a
  requested pad of two frames on either side, used to evaluate the definitions. The
  padding class knows one method, which widens every direction by its argument.\<close>

definition example_padding_class :: "int padding_class" where
  "example_padding_class =
     \<lparr>new_padding = [(0, \<lparr>before = 0, after = 0\<rparr>)],
      call_method = (\<lambda>key v dirs.
        if key = ''pad_multi_frames''
        then Inr (map (\<lambda>(d, p). (d, \<lparr>before = before p + v, after = after p + v\<rparr>)) dirs)
        else Inl AttributeError)\<rparr>"

definition example_plugin_data :: "int plugin_data" where
  "example_plugin_data =
     \<lparr>pattern_of = \<lparr>slice_directions = [0], core_directions = [], fixed_directions = []\<rparr>,
      frame_chunk = Some 4,
      padding = PaddingObj [(0, \<lparr>before = 2, after = 2\<rparr>)],
      pad_dict = Some [(''pad_multi_frames'', 2)],
      end_pad = False,
      fixed_dims = True\<rparr>"

definition example_data :: "int ndarray" where
  "example_data = \<lparr>shape = [10], flat = [10, 11, 12, 13, 14, 15, 16, 17, 18, 19]\<rparr>"

text \<open>A dataset of nine frames of four values, sliced along its first axis one frame
  at a time and without padding, used to evaluate the distribution over four ranks.\<close>

definition nine_frames_preview :: preview where
  "nine_frames_preview = \<lparr>starts = [0, 0], stops = [9, 4], steps = [1, 1], chunks = [1, 1]\<rparr>"

definition nine_frames_plugin_data :: "int plugin_data" where
  "nine_frames_plugin_data =
     \<lparr>pattern_of = \<lparr>slice_directions = [0], core_directions = [1], fixed_directions = []\<rparr>,
      frame_chunk = None,
      padding = NoPadding,
      pad_dict = None,
      end_pad = False,
      fixed_dims = False\<rparr>"

definition frame_window :: "int \<Rightarrow> window" where
  "frame_window i = [Slice (Some i) (Some (i + 1)) (Some 1), Slice (Some 0) (Some 4) (Some 1)]"

text \<open>A dataset whose first axis is of variable length, sliced along its second axis.\<close>

definition var_preview :: preview where
  "var_preview = \<lparr>starts = [0, 0, 0], stops = [1, 3, 4], steps = [1, 1, 1], chunks = [1, 1, 1]\<rparr>"

definition var_pattern :: pattern where
  "var_pattern = \<lparr>slice_directions = [1], core_directions = [2], fixed_directions = []\<rparr>"

definition var_shape :: "dimlen list" where
  "var_shape = [Var, Len 3, Len 4]"

text \<open>A padding class whose one method appends the directions it is given, the plugin
  data with such directions in force, read frame by frame without a fixed batch length,
  and the array of a given shape that holds its own row-major positions.\<close>

definition listed_padding_class :: "padding_dirs padding_class" where
  "listed_padding_class =
     \<lparr>new_padding = [],
      call_method = (\<lambda>key v dirs.
        if key = ''pad_directions'' then Inr (dirs @ v) else Inl AttributeError)\<rparr>"

definition listed_plugin_data :: "padding_dirs \<Rightarrow> padding_dirs plugin_data" where
  "listed_plugin_data dirs =
     \<lparr>pattern_of = \<lparr>slice_directions = [0], core_directions = [], fixed_directions = []\<rparr>,
      frame_chunk = None,
      padding = PaddingObj dirs,
      pad_dict = Some [(''pad_directions'', dirs)],
      end_pad = False,
      fixed_dims = False\<rparr>"

definition counting_data :: "nat list \<Rightarrow> int ndarray" where
  "counting_data sh = \<lparr>shape = sh, flat = map int [0..<prod_list sh]\<rparr>"

section \<open>Properties\<close>

subsection \<open>Chunked slice axes\<close>

lemma concat_transpose_rect:
  assumes "js \<noteq> []"
  shows "concat (transpose (map (\<lambda>j. map (f j) pts) js))
       = concat (map (\<lambda>p. map (\<lambda>j. f j p) js) pts)"
proof -
  let ?m = "map (\<lambda>j. map (f j) pts) js"
  have "transpose ?m = map (\<lambda>i. map (\<lambda>j. ?m ! j ! i) [0..<length ?m]) [0..<length pts]"
    by (rule transpose_rectangle) (use assms in auto)
  also have "\<dots> = map (\<lambda>p. map (\<lambda>j. f j p) js) pts"
    by (rule nth_equalityI) (auto intro!: nth_equalityI)
  finally show ?thesis by simp
qed

lemma matrix_form:
  "map2 (map2 (+)) (replicate (nat c) pts)
     (map (\<lambda>j. replicate (length pts) (j - c div 2)) [0..c - 1])
   = map (\<lambda>j. map (\<lambda>p. p + (j - c div 2)) pts) [0..c - 1]"
  by (rule nth_equalityI) (auto intro!: nth_equalityI)

lemma matrix_negative:
  assumes "0 < c"
  shows "(\<exists>row \<in> set (map (\<lambda>j. map (\<lambda>p. p + (j - c div 2)) pts) [0..c - 1]).
            \<exists>v \<in> set row. v < (0::int))
     \<longleftrightarrow> (\<exists>v \<in> set (centred_positions pts c). v < 0)"
  unfolding centred_positions_def by (simp add: algebra_simps) (metis add.commute)

text \<open>
  C6 (amended). For a slice axis with chunk \<open>c > 1\<close>, the index sequence is, for each
  step point in turn, the \<open>c\<close> contiguous positions offset by \<open>- (c div 2)\<close> up to
  \<open>c - c div 2 - 1\<close> from it, and the construction fails with the negative-value
  exception exactly when one of these positions is negative.
\<close>

theorem slice_dir_index_chunked:
  assumes "dim < length (chunks pv)" and "dim < length (starts pv)"
    and "dim < length (stops pv)" and "dim < length (steps pv)"
    and "1 < chunks pv ! dim" and "steps pv ! dim \<noteq> 0"
  shows "get_slice_dir_index pv fixed dim =
     (let pos = centred_positions
                  (arange (starts pv ! dim) (stops pv ! dim) (steps pv ! dim)) (chunks pv ! dim)
      in if \<exists>v \<in> set pos. v < 0 then Inl InvalidSliceError else Inr pos)"
proof -
  let ?c = "chunks pv ! dim"
  let ?pts = "arange (starts pv ! dim) (stops pv ! dim) (steps pv ! dim)"
  let ?m = "map (\<lambda>j. map (\<lambda>p. p + (j - ?c div 2)) ?pts) [0..?c - 1]"
  have c: "0 < ?c" using assms by simp
  have js: "[0..?c - 1] \<noteq> []" using c by (simp add: upto.simps)
  have mat: "get_slice_dir_matrix pv dim =
      (if \<exists>v \<in> set (centred_positions ?pts ?c). v < 0 then Inl InvalidSliceError else Inr ?m)"
    using assms matrix_negative[OF c, of ?pts]
    by (simp add: get_slice_dir_matrix_def np_arange_def Let_def matrix_form
        del: set_map set_concat)
  have flat: "concat (transpose ?m) = centred_positions ?pts ?c"
    unfolding centred_positions_def concat_transpose_rect[OF js]
    by (simp add: algebra_simps)
  show ?thesis
    using assms by (simp add: get_slice_dir_index_def mat flat Let_def)
qed

text \<open>The scenario of the specification: chunk 3 at the step points 10 and 20 gives the
  centred windows 9, 10, 11 and 19, 20, 21; chunk 3 at step point 0 fails.\<close>

theorem slice_dir_index_chunked_witness:
  "get_slice_dir_index \<lparr>starts = [10], stops = [21], steps = [10], chunks = [3]\<rparr> [] 0
     = Inr [9, 10, 11, 19, 20, 21]
   \<and> get_slice_dir_index \<lparr>starts = [0], stops = [1], steps = [1], chunks = [3]\<rparr> [] 0
     = Inl InvalidSliceError"
proof -
  have a: "centred_positions (arange 10 21 10) 3 = [9, 10, 11, 19, 20, 21]"
    by code_simp
  have b: "centred_positions (arange 0 1 1) 3 = [-1, 0, 1]"
    by code_simp
  show ?thesis
    using slice_dir_index_chunked
            [of 0 "\<lparr>starts = [10], stops = [21], steps = [10], chunks = [3]\<rparr>" "[]"]
          slice_dir_index_chunked
            [of 0 "\<lparr>starts = [0], stops = [1], steps = [1], chunks = [3]\<rparr>" "[]"]
    by (simp add: a b)
qed

text \<open>Chunk 3 at step point 1 does not fail: the offset \<open>-1\<close> gives position 0, which is
  not negative.\<close>

theorem chunk_at_step_point_one_counterexample:
  "get_slice_dir_index \<lparr>starts = [1], stops = [2], steps = [1], chunks = [3]\<rparr> [] 0
     = Inr [0, 1, 2]"
  by code_simp

subsection \<open>Clipping of padded bounds\<close>

lemma pad_bounds_concrete:
  "pad_bounds (Some s) (Some e) st pad (Len n) =
     Inr (Slice (Some (max 0 (s - before pad))) (Some (min n (e + after pad))) st,
          (max 0 (before pad - s), max 0 (e + after pad - n)))"
  by (simp add: pad_bounds_def Let_def max_def min_def)

text \<open>
  C8 (amended). For a selector with integer start and stop, \<^verbatim>\<open>__calculate_slice_padding\<close>
  always returns: the slice from \<open>max 0 (start - before)\<close> to \<open>min extent (stop + after)\<close>
  with the step unchanged, and the amounts cut off as pads. No test compares the two
  bounds, so the slice is returned also when the lower bound exceeds the upper one.
\<close>

theorem calculate_slice_padding_returns:
  "calculate_slice_padding (Slice (Some s) (Some e) st) pad (Len n) =
     Inr (Slice (Some (max 0 (s - before pad))) (Some (min n (e + after pad))) st,
          (max 0 (before pad - s), max 0 (e + after pad - n)))"
  by (simp add: pad_bounds_concrete)

theorem calculate_slice_padding_returns_witness:
  "calculate_slice_padding (Slice (Some 7) (Some 9) (Some 1)) \<lparr>before = 2, after = 2\<rparr> (Len 4)
     = Inr (Slice (Some 5) (Some 4) (Some 1), (0, 7))"
  using calculate_slice_padding_returns
          [of 7 9 "Some 1" "\<lparr>before = 2, after = 2\<rparr>" 4]
  by simp

text \<open>A window beyond the end of the axis: the clipped bounds are 200 and 100, and the
  reversed slice is returned.\<close>

theorem reversed_slice_counterexample:
  "calculate_slice_padding (Slice (Some 200) (Some 201) (Some 1))
       \<lparr>before = 0, after = 0\<rparr> (Len 100)
     = Inr (Slice (Some 200) (Some 100) (Some 1), (0, 101))
   \<and> calculate_slice_padding (Slice (Some 200) (Some 201) (Some 1))
       \<lparr>before = 0, after = 0\<rparr> (Len 100) \<noteq> Inl InvalidSliceError"
  by (simp add: pad_bounds_def)

subsection \<open>One-dimensional gathers and slices\<close>

lemma gather_1d:
  assumes "\<forall>i \<in> set idx. i < length xs"
  shows "gather [idx] [n] xs = map (\<lambda>i. xs ! i) idx"
  using assms
  by (induction idx) (auto simp: take_Suc_conv_app_nth hd_drop_conv_nth take_Suc)

lemma slice_indices_prefix:
  assumes "0 \<le> e" and "e \<le> int n"
  shows "slice_indices (Some 0) (Some e) (Some 1) n = Inr [0..<nat e]"
proof -
  have "map nat (arange 0 e 1) = [0..<nat e]"
    using assms by (auto simp: arange_def intro!: nth_equalityI)
  then show ?thesis using assms by (simp add: slice_indices_def Let_def)
qed

lemma slice_indices_crop_full:
  assumes "0 \<le> b"
  shows "slice_indices (Some b) (Some (int n)) (Some 1) n = Inr [nat b..<n]"
proof -
  have "map nat (arange (min b (int n)) (int n) 1) = [nat b..<n]"
    using assms by (auto simp: arange_def intro!: nth_equalityI)
  then show ?thesis using assms by (simp add: slice_indices_def Let_def)
qed

lemma slice_indices_crop_after:
  assumes "0 \<le> b" and "0 < a" and "a \<le> int n"
  shows "slice_indices (Some b) (Some (- a)) (Some 1) n = Inr [nat b..<n - nat a]"
proof -
  have "map nat (arange (min b (int n)) (int n - a) 1) = [nat b..<n - nat a]"
    using assms by (auto simp: arange_def intro!: nth_equalityI)
  moreover have "max (- a + int n) 0 = int n - a"
    using assms by simp
  ultimately show ?thesis
    using assms by (simp add: slice_indices_def Let_def del: max.absorb1 max.absorb3)
qed

subsection \<open>Padding at the start of an axis\<close>

text \<open>
  C4 (amended). Padding a window whose selector starts at position 0 with a requested
  before-pad of 3 yields the read window unchanged at its start and an actual before-pad
  of 3: the three positions cut off by clipping are what \<^verbatim>\<open>np.pad\<close> replicates, so the
  materialized block of a one-dimensional dataset begins with three copies of its first
  element, followed by the window.
\<close>

theorem clipped_before_pad_is_replicated:
  assumes "padding pData = PaddingObj [(0, \<lparr>before = 3, after = 0\<rparr>)]"
    and "\<not> fixed_dims pData" and "\<not> end_pad pData"
    and "0 < e" and "e \<le> int (length xs)"
  shows "calculate_slice_padding (Slice (Some 0) (Some e) (Some 1)) \<lparr>before = 3, after = 0\<rparr>
           (Len (int (length xs))) = Inr (Slice (Some 0) (Some e) (Some 1), (3, 0))
       \<and> get_padded_slice_data cls [Len (int (length xs))] \<lparr>shape = [length xs], flat = xs\<rparr>
           pData [Slice (Some 0) (Some e) (Some 1)]
         = Inr (pData, \<lparr>shape = [3 + nat e], flat = replicate 3 (xs ! 0) @ take (nat e) xs\<rparr>)"
proof -
  have calc: "calculate_slice_padding (Slice (Some 0) (Some e) (Some 1))
           \<lparr>before = 3, after = 0\<rparr> (Len (int (length xs)))
         = Inr (Slice (Some 0) (Some e) (Some 1), (3, 0))"
    using assms by (simp add: pad_bounds_concrete)
  have rd: "getitem [Slice (Some 0) (Some e) (Some 1)] \<lparr>shape = [length xs], flat = xs\<rparr>
      = Inr \<lparr>shape = [nat e], flat = take (nat e) xs\<rparr>"
  proof -
    have "gather [[0..<nat e]] [length xs] xs = take (nat e) xs"
      using assms by (subst gather_1d) (auto intro!: nth_equalityI)
    then show ?thesis
      using assms by (simp add: getitem_def slice_indices_prefix del: gather.simps)
  qed
  have ed: "map ((!) (take (nat e) xs)) (edge_indices 3 0 (nat e))
      = replicate 3 (xs ! 0) @ take (nat e) xs"
  proof -
    have len: "length (take (nat e) xs) = nat e" using assms by simp
    have "map ((!) (take (nat e) xs)) [0..<nat e] = take (nat e) xs"
      using map_nth[of "take (nat e) xs"] unfolding len .
    moreover have "take (nat e) xs ! 0 = xs ! 0" using assms by simp
    ultimately show ?thesis
      using assms by (simp add: edge_indices_def)
  qed
  have pd: "np_pad_edge [(3, 0)] \<lparr>shape = [nat e], flat = take (nat e) xs\<rparr>
     = Inr \<lparr>shape = [3 + nat e], flat = replicate 3 (xs ! 0) @ take (nat e) xs\<rparr>"
  proof -
    have "gather [edge_indices 3 0 (nat e)] [nat e] (take (nat e) xs)
        = replicate 3 (xs ! 0) @ take (nat e) xs"
    proof -
      have "\<forall>i \<in> set (edge_indices 3 0 (nat e)). i < length (take (nat e) xs)"
        using assms by (auto simp: edge_indices_def)
      then show ?thesis by (simp only: gather_1d ed)
    qed
    then show ?thesis
      using assms by (simp add: np_pad_edge_def del: gather.simps)
  qed
  have "get_pad_data \<lparr>shape = [length xs], flat = xs\<rparr>
          [Slice (Some 0) (Some e) (Some 1)] [(3, 0)]
     = Inr \<lparr>shape = [3 + nat e], flat = replicate 3 (xs ! 0) @ take (nat e) xs\<rparr>"
    by (simp add: get_pad_data_def rd pd)
  then show ?thesis
    using assms(1-3) calc by (simp add: get_padded_slice_data_def)
qed

theorem clipped_before_pad_is_replicated_witness:
  "get_padded_slice_data \<lparr>new_padding = [], call_method = (\<lambda>k (v :: int) d. Inr d)\<rparr>
       [Len 6] \<lparr>shape = [6], flat = [10, 11, 12, 13, 14, 15 :: int]\<rparr>
       \<lparr>pattern_of = \<lparr>slice_directions = [0], core_directions = [], fixed_directions = []\<rparr>,
        frame_chunk = None, padding = PaddingObj [(0, \<lparr>before = 3, after = 0\<rparr>)],
        pad_dict = None, end_pad = False, fixed_dims = False\<rparr>
       [Slice (Some 0) (Some 4) (Some 1)]
     = Inr (\<lparr>pattern_of = \<lparr>slice_directions = [0], core_directions = [],
                             fixed_directions = []\<rparr>,
            frame_chunk = None, padding = PaddingObj [(0, \<lparr>before = 3, after = 0\<rparr>)],
            pad_dict = None, end_pad = False, fixed_dims = False\<rparr>,
           \<lparr>shape = [7], flat = [10, 10, 10, 10, 11, 12, 13]\<rparr>)"
proof -
  let ?xs = "[10, 11, 12, 13, 14, 15 :: int]"
  let ?pd = "\<lparr>pattern_of = \<lparr>slice_directions = [0], core_directions = [],
                             fixed_directions = []\<rparr>,
        frame_chunk = None, padding = PaddingObj [(0, \<lparr>before = 3, after = 0\<rparr>)],
        pad_dict = (None :: (string \<times> int) list option), end_pad = False,
        fixed_dims = False\<rparr>"
  have h: "padding ?pd = PaddingObj [(0, \<lparr>before = 3, after = 0\<rparr>)]"
    "\<not> fixed_dims ?pd" "\<not> end_pad ?pd" "(0::int) < 4" "4 \<le> int (length ?xs)"
    by simp_all
  have e: "length ?xs = 6" "int 6 = 6" "3 + nat 4 = 7"
    "replicate 3 (?xs ! 0) @ take (nat 4) ?xs = [10, 10, 10, 10, 11, 12, 13]"
    by code_simp+
  show ?thesis
    using clipped_before_pad_is_replicated[OF h, unfolded e] by (rule conjunct2)
qed

text \<open>The claim as stated fails: with the window starting at 0 and a before-pad of 3 the
  pad returned is 3, not 0, and the block is three elements longer than the window.\<close>

theorem before_pad_at_zero_counterexample:
  "calculate_slice_padding (Slice (Some 0) (Some 5) (Some 1)) \<lparr>before = 3, after = 0\<rparr> (Len 10)
     = Inr (Slice (Some 0) (Some 5) (Some 1), (3, 0))
   \<and> get_pad_data \<lparr>shape = [10], flat = [10, 11, 12, 13, 14, 15, 16, 17, 18, 19 :: int]\<rparr>
        [Slice (Some 0) (Some 5) (Some 1)] [(3, 0)]
     = Inr \<lparr>shape = [8], flat = [10, 10, 10, 10, 11, 12, 13, 14]\<rparr>"
  by code_simp

subsection \<open>Grouping a pattern without slice axes\<close>

text \<open>
  C7. When the pattern declares no slice axes, \<^verbatim>\<open>_single_slice_list\<close> still returns a
  list, the guard \<^verbatim>\<open>sl is None\<close> of \<^verbatim>\<open>_get_grouped_slice_list\<close> does not fire, and the
  call ends in the \<^verbatim>\<open>IndexError\<close> of \<^verbatim>\<open>get_slice_directions()[0]\<close> instead of the
  "does not support slicing" exception.
\<close>

theorem grouping_without_slice_axes:
  assumes "slice_directions pat = []"
    and "single_slice_list pv pat labels shp = Inr sl"
  shows "get_grouped_slice_list pv pat labels shp fc = Inl IndexError"
  using assms
  by (simp add: get_grouped_slice_list_def grouped_slice_list_def banked_list_def
      chunk_length_repeat_def get_shape_of_slice_dirs_def split_list_def)

theorem grouping_without_slice_axes_witness:
  "single_slice_list \<lparr>starts = [0, 0], stops = [4, 5], steps = [1, 1], chunks = [1, 1]\<rparr>
       \<lparr>slice_directions = [], core_directions = [0, 1], fixed_directions = []\<rparr> []
       [Len 4, Len 5] = Inr []
   \<and> get_grouped_slice_list \<lparr>starts = [0, 0], stops = [4, 5], steps = [1, 1], chunks = [1, 1]\<rparr>
       \<lparr>slice_directions = [], core_directions = [0, 1], fixed_directions = []\<rparr> []
       [Len 4, Len 5] None = Inl IndexError"
proof -
  have s: "single_slice_list \<lparr>starts = [0, 0], stops = [4, 5], steps = [1, 1], chunks = [1, 1]\<rparr>
       \<lparr>slice_directions = [], core_directions = [0, 1], fixed_directions = []\<rparr> []
       [Len 4, Len 5] = Inr []"
    by code_simp
  show ?thesis
    using s grouping_without_slice_axes[OF _ s, of None] by simp
qed

subsection \<open>The crop of the inverse operation\<close>

lemma unpad_slices_gen:
  assumes "distinct (map fst dirs)"
    and "\<forall>d \<in> fst ` set dirs. d < length w \<and> d < length sh"
  shows "unpad_slices dirs sh w =
     Inr (map (\<lambda>d. case map_of dirs d of
                 None \<Rightarrow> w ! d
               | Some p \<Rightarrow>
                   Slice (Some (before p))
                     (Some (if after p = 0 then int (sh ! d) else - after p))
                     (Some 1))
       [0..<length w])"
  using assms
proof (induction dirs arbitrary: w)
  case Nil
  then show ?case by (simp add: map_nth)
next
  case (Cons a dirs)
  obtain k p where a: "a = (k, p)" by (cases a)
  have k: "k < length w" "k < length sh" "k \<notin> fst ` set dirs"
    using Cons.prems by (auto simp: a)
  let ?w = "w[k := Slice (Some (before p))
                     (Some (if after p = 0 then int (sh ! k) else - after p)) (Some 1)]"
  have IH: "unpad_slices dirs sh ?w = Inr (map (\<lambda>d. case map_of dirs d of
                 None \<Rightarrow> ?w ! d
               | Some p \<Rightarrow>
                   Slice (Some (before p))
                     (Some (if after p = 0 then int (sh ! d) else - after p))
                     (Some 1))
       [0..<length ?w])"
    by (rule Cons.IH) (use Cons.prems in \<open>auto simp: a\<close>)
  have nk: "map_of dirs k = None"
    using k(3) by (simp add: map_of_eq_None_iff)
  show ?case
    unfolding a using k(1,2) IH
    by (auto simp: nk intro!: nth_equalityI split: option.splits)
qed

subsection \<open>Distribution over processes\<close>

lemma cumsum_from_length: "length (cumsum_from acc xs) = length xs"
  by (induction xs arbitrary: acc) auto

lemma cumsum_from_nth:
  "i < length xs \<Longrightarrow> cumsum_from acc xs ! i = acc + sum_list (take (Suc i) xs)"
proof (induction xs arbitrary: acc i)
  case Nil
  then show ?case by simp
next
  case (Cons x xs)
  then show ?case by (cases i) auto
qed

lemma sum_list_replicate_nat: "sum_list (replicate n (x::nat)) = n * x"
  by (induction n) auto

lemma sum_list_take_sizes:
  "sum_list (take k (replicate a (x::nat) @ replicate b y)) = min k a * x + min (k - a) b * y"
  by (simp add: min.commute sum_list_replicate_nat)

lemma part_offset_Suc: "part_offset B P (Suc r) = part_offset B P r + part_size B P r"
  by (auto simp: part_offset_def part_size_def min_def)

lemma part_offset_0: "part_offset B P 0 = 0"
  by (simp add: part_offset_def)

lemma part_offset_total: "0 < P \<Longrightarrow> part_offset B P P = B"
proof -
  assume "0 < P"
  then have "B mod P < P" by simp
  then have "min P (B mod P) = B mod P" by simp
  then show ?thesis by (simp add: part_offset_def)
qed

lemma part_offset_mono: "r \<le> r' \<Longrightarrow> part_offset B P r \<le> part_offset B P r'"
  unfolding part_offset_def by (intro add_mono mult_le_mono1 min.mono) auto

lemma div_points_nth:
  assumes "0 < P" "i \<le> P"
  shows "cumsum_from 0 ([0] @ replicate (B mod P) (B div P + 1)
                          @ replicate (P - B mod P) (B div P)) ! i = part_offset B P i"
proof -
  have lt: "B mod P < P" using assms by simp
  have "cumsum_from 0 ([0] @ replicate (B mod P) (B div P + 1)
                          @ replicate (P - B mod P) (B div P)) ! i
      = sum_list (take i (replicate (B mod P) (B div P + 1) @ replicate (P - B mod P) (B div P)))"
    using assms lt by (subst cumsum_from_nth) auto
  also have "\<dots> = min i (B mod P) * (B div P + 1) + min (i - B mod P) (P - B mod P) * (B div P)"
    by (rule sum_list_take_sizes)
  also have "\<dots> = part_offset B P i"
    using assms lt by (auto simp: part_offset_def min_def algebra_simps)
  finally show ?thesis .
qed

lemma array_split_section:
  assumes "0 < P" "r < P"
  shows "array_split xs P = Inr secs \<Longrightarrow>
     secs ! r = take (part_size (length xs) P r) (drop (part_offset (length xs) P r) xs)
     \<and> length secs = P"
  using assms div_points_nth[of P r "length xs"] div_points_nth[of P "Suc r" "length xs"]
  by (auto simp: array_split_def Let_def part_offset_Suc)

lemma array_split_ok: "0 < P \<Longrightarrow> \<exists>secs. array_split xs P = Inr secs"
  by (simp add: array_split_def Let_def)

lemma part_end_le:
  assumes "0 < P" "r < P"
  shows "part_offset B P r + part_size B P r \<le> B"
  using part_offset_mono[of "Suc r" P B P] assms
  by (simp add: part_offset_Suc part_offset_total)

lemma per_process_formula:
  assumes "0 < P" "r < P"
  shows "slice_list_per_process sl P r =
     Inr (take (part_size (length sl) P r) (drop (part_offset (length sl) P r) sl),
          [part_offset (length sl) P r ..< part_offset (length sl) P r + part_size (length sl) P r])"
proof -
  let ?B = "length sl"
  let ?o = "part_offset ?B P r" and ?s = "part_size ?B P r"
  obtain secs where secs: "array_split [0..<?B] P = Inr secs"
    using array_split_ok[OF assms(1)] by blast
  have le: "?o + ?s \<le> ?B" by (rule part_end_le[OF assms])
  have fr: "secs ! r = [?o..<?o + ?s]" and len: "length secs = P"
    using array_split_section[OF assms secs] le by (simp_all add: take_upt)
  show ?thesis
  proof (cases "?s = 0")
    case True
    then show ?thesis using secs fr len assms by (simp add: slice_list_per_process_def)
  next
    case False
    then have ne: "[?o..<?o + ?s] \<noteq> []" by simp
    have hd: "hd [?o..<?o + ?s] = ?o" using False by (simp add: upt_rec)
    have last: "last [?o..<?o + ?s] = ?o + ?s - 1" using False by (simp add: last_upt)
    show ?thesis
      using secs fr len assms ne False
      by (simp add: slice_list_per_process_def Let_def hd last del: upt_eq_Nil_conv)
  qed
qed

lemma concat_parts:
  assumes "0 < P" "k \<le> P"
  shows "concat (map (\<lambda>r. take (part_size B P r) (drop (part_offset B P r) xs)) [0..<k])
       = take (part_offset B P k) xs"
  using assms(2)
proof (induction k)
  case 0
  then show ?case by (simp add: part_offset_0)
next
  case (Suc k)
  then show ?case by (simp add: part_offset_Suc take_add)
qed

lemma frames_disjoint:
  assumes "r < r'"
  shows "set [part_offset B P r ..< part_offset B P r + part_size B P r]
       \<inter> set [part_offset B P r' ..< part_offset B P r' + part_size B P r'] = {}"
proof -
  have "part_offset B P (Suc r) \<le> part_offset B P r'"
    using assms by (intro part_offset_mono) simp
  then show ?thesis by (auto simp: part_offset_Suc)
qed

text \<open>
  C2. Whenever \<^verbatim>\<open>_get_slice_list_per_process\<close> has set the padding dictionary and built a
  grouped slice list of \<open>B\<close> batches, then for every number \<open>P > 0\<close> of processes the call
  for rank \<open>r < P\<close> returns the \<open>part_size B P r\<close> consecutive batches that start at
  \<open>part_offset B P r\<close>, with exactly those frame indices; a rank whose share is empty
  receives the empty list and no error. The shares follow one another without gap or
  overlap from 0 to \<open>B\<close>, their concatenation in rank order is the grouped slice list,
  their sizes differ by at most one with the larger ones first, and nine batches over
  four ranks give the sizes 3, 2, 2, 2.
\<close>

theorem per_process_partition:
  assumes "0 < P"
    and "set_padding_dict cls pData0 = Inr pData"
    and "get_grouped_slice_list pv (pattern_of pData) labels shp (frame_chunk pData) = Inr sl"
  shows "(\<forall>r < P. get_slice_list_per_process cls pv labels shp pData0 P r =
            Inr (pData,
                 take (part_size (length sl) P r) (drop (part_offset (length sl) P r) sl),
                 [part_offset (length sl) P r
                    ..< part_offset (length sl) P r + part_size (length sl) P r]))
       \<and> concat (map (\<lambda>r. take (part_size (length sl) P r)
                               (drop (part_offset (length sl) P r) sl)) [0..<P]) = sl
       \<and> part_offset (length sl) P 0 = 0
       \<and> part_offset (length sl) P P = length sl
       \<and> (\<forall>r. part_offset (length sl) P (Suc r)
                = part_offset (length sl) P r + part_size (length sl) P r)
       \<and> (\<forall>r r'. r < r' \<longrightarrow>
             set [part_offset (length sl) P r
                    ..< part_offset (length sl) P r + part_size (length sl) P r]
             \<inter> set [part_offset (length sl) P r'
                    ..< part_offset (length sl) P r' + part_size (length sl) P r'] = {})
       \<and> (\<forall>r r'. r \<le> r' \<longrightarrow>
             part_size (length sl) P r' \<le> part_size (length sl) P r
             \<and> part_size (length sl) P r \<le> part_size (length sl) P r' + 1)
       \<and> map (part_size 9 4) [0, 1, 2, 3] = [3, 2, 2, 2]"
proof -
  have 1: "\<forall>r < P. get_slice_list_per_process cls pv labels shp pData0 P r =
            Inr (pData,
                 take (part_size (length sl) P r) (drop (part_offset (length sl) P r) sl),
                 [part_offset (length sl) P r
                    ..< part_offset (length sl) P r + part_size (length sl) P r])"
    using per_process_formula[OF assms(1), of _ sl]
    by (simp add: get_slice_list_per_process_def assms(2,3))
  have 2: "concat (map (\<lambda>r. take (part_size (length sl) P r)
                               (drop (part_offset (length sl) P r) sl)) [0..<P]) = sl"
    using concat_parts[OF assms(1) order_refl, of "length sl" sl]
    by (simp add: part_offset_total[OF assms(1)])
  have 3: "\<forall>r r'. r \<le> r' \<longrightarrow>
             part_size (length sl) P r' \<le> part_size (length sl) P r
             \<and> part_size (length sl) P r \<le> part_size (length sl) P r' + 1"
    by (simp add: part_size_def)
  have 4: "map (part_size 9 4) [0, 1, 2, 3] = [3, 2, 2, 2]"
    by (simp add: part_size_def)
  have 5: "\<forall>r. part_offset (length sl) P (Suc r)
                = part_offset (length sl) P r + part_size (length sl) P r"
    by (simp add: part_offset_Suc)
  have 6: "\<forall>r r'. r < r' \<longrightarrow>
             set [part_offset (length sl) P r
                    ..< part_offset (length sl) P r + part_size (length sl) P r]
             \<inter> set [part_offset (length sl) P r'
                    ..< part_offset (length sl) P r' + part_size (length sl) P r'] = {}"
    using frames_disjoint[of _ _ "length sl" P] by blast
  show ?thesis
    by (intro conjI 1 2 3 4 5 6 part_offset_0 part_offset_total[OF assms(1)])
qed

text \<open>Nine batches over four ranks: the ranks own 3, 2, 2 and 2 batches, and rank 3 owns
  the frame indices 7 and 8.\<close>

theorem per_process_partition_witness:
  "get_slice_list_per_process example_padding_class nine_frames_preview [] [Len 9, Len 4]
       nine_frames_plugin_data 4 0
     = Inr (nine_frames_plugin_data, map frame_window [0, 1, 2], [0, 1, 2])
   \<and> get_slice_list_per_process example_padding_class nine_frames_preview [] [Len 9, Len 4]
       nine_frames_plugin_data 4 1
     = Inr (nine_frames_plugin_data, map frame_window [3, 4], [3, 4])
   \<and> get_slice_list_per_process example_padding_class nine_frames_preview [] [Len 9, Len 4]
       nine_frames_plugin_data 4 2
     = Inr (nine_frames_plugin_data, map frame_window [5, 6], [5, 6])
   \<and> get_slice_list_per_process example_padding_class nine_frames_preview [] [Len 9, Len 4]
       nine_frames_plugin_data 4 3
     = Inr (nine_frames_plugin_data, map frame_window [7, 8], [7, 8])"
proof -
  let ?sl = "map frame_window [0, 1, 2, 3, 4, 5, 6, 7, 8]"
  have P: "(0::nat) < 4" by simp
  have r: "(0::nat) < 4" "(1::nat) < 4" "(2::nat) < 4" "(3::nat) < 4" by simp_all
  have s: "set_padding_dict example_padding_class nine_frames_plugin_data
         = Inr nine_frames_plugin_data"
    by (simp add: set_padding_dict_def nine_frames_plugin_data_def)
  have g: "get_grouped_slice_list nine_frames_preview (pattern_of nine_frames_plugin_data) []
             [Len 9, Len 4] (frame_chunk nine_frames_plugin_data) = Inr ?sl"
    by code_simp
  note t = per_process_partition[OF P s g, THEN conjunct1, rule_format]
  have e: "take (part_size (length ?sl) 4 0) (drop (part_offset (length ?sl) 4 0) ?sl)
             = map frame_window [0, 1, 2]"
    "take (part_size (length ?sl) 4 1) (drop (part_offset (length ?sl) 4 1) ?sl)
             = map frame_window [3, 4]"
    "take (part_size (length ?sl) 4 2) (drop (part_offset (length ?sl) 4 2) ?sl)
             = map frame_window [5, 6]"
    "take (part_size (length ?sl) 4 3) (drop (part_offset (length ?sl) 4 3) ?sl)
             = map frame_window [7, 8]"
    "[part_offset (length ?sl) 4 0 ..< part_offset (length ?sl) 4 0 + part_size (length ?sl) 4 0]
       = [0, 1, 2]"
    "[part_offset (length ?sl) 4 1 ..< part_offset (length ?sl) 4 1 + part_size (length ?sl) 4 1]
       = [3, 4]"
    "[part_offset (length ?sl) 4 2 ..< part_offset (length ?sl) 4 2 + part_size (length ?sl) 4 2]
       = [5, 6]"
    "[part_offset (length ?sl) 4 3 ..< part_offset (length ?sl) 4 3 + part_size (length ?sl) 4 3]
       = [7, 8]"
    by code_simp+
  show ?thesis
    using t[OF r(1)] t[OF r(2)] t[OF r(3)] t[OF r(4)] unfolding e by (intro conjI)
qed

subsection \<open>Banks and batches\<close>


lemma pieces_Nil [simp]: "pieces n [] = []"
  by (simp add: pieces.simps)

lemma arange_step:
  assumes "0 < n" "0 < L"
  shows "arange 0 L n = 0 # map (\<lambda>x. x + n) (arange 0 (L - n) n)"
proof -
  have d: "(- L) div n = (n - L) div n - 1"
    using assms by (metis add.commute diff_conv_add_uminus div_add_self1 add_diff_cancel_right' less_irrefl)
  have neg: "(- L) div n < 0" using assms by (simp add: div_neg_pos_less0)
  then have c: "nat (- ((- L) div n)) = Suc (nat (- ((n - L) div n)))"
    using d by simp
  have "[0..<Suc (nat (- ((n - L) div n)))] = 0 # map Suc [0..<nat (- ((n - L) div n))]"
    by (simp add: upt_conv_Cons map_Suc_upt del: upt_Suc)
  then show ?thesis
    unfolding arange_def by (simp add: c algebra_simps comp_def del: upt_Suc)
qed

lemma arange_empty: "L \<le> 0 \<Longrightarrow> 0 < n \<Longrightarrow> arange 0 L n = []"
  by (simp add: arange_def div_int_pos_iff)

lemma split_list_pieces:
  assumes "0 < n"
  shows "split_list xs (int n) = Inr (pieces n xs)"
proof -
  have "map (\<lambda>x. take n (drop (nat x) xs)) (arange 0 (int (length xs)) (int n)) = pieces n xs"
  proof (induction n xs rule: pieces.induct)
    case (1 n xs)
    show ?case
    proof (cases "xs = [] \<or> n = 0")
      case True
      then show ?thesis by (auto simp: pieces.simps arange_def)
    next
      case False
      then have n: "0 < int n" and L: "0 < int (length xs)" by auto
      have IH: "map (\<lambda>x. take n (drop (nat x) (drop n xs)))
                   (arange 0 (int (length (drop n xs))) (int n)) = pieces n (drop n xs)"
        using 1 False by simp
      have nn: "\<And>x. x \<in> set (arange 0 (int (length xs) - int n) (int n)) \<Longrightarrow> 0 \<le> x"
        by (auto simp: arange_def)
      have ar: "arange 0 (int (length (drop n xs))) (int n)
              = arange 0 (int (length xs) - int n) (int n)"
      proof (cases "n \<le> length xs")
        case True
        then show ?thesis by (simp add: of_nat_diff)
      next
        case False
        then show ?thesis using n by (simp add: arange_empty)
      qed
      have "map (\<lambda>x. take n (drop (nat x) xs)) (arange 0 (int (length xs)) (int n))
          = take n xs # map (\<lambda>x. take n (drop (nat x) (drop n xs)))
                          (arange 0 (int (length xs) - int n) (int n))"
        unfolding arange_step[OF n L] using nn
        by (auto simp: nat_add_distrib add.commute)
      then show ?thesis
        using False IH ar by (subst pieces.simps) simp
    qed
  qed
  then show ?thesis using assms by (simp add: split_list_def)
qed

lemma concat_pieces: "0 < n \<Longrightarrow> concat (pieces n xs) = xs"
proof (induction n xs rule: pieces.induct)
  case (1 n xs)
  then show ?case by (subst pieces.simps) auto
qed

lemma pieces_parts: "c \<in> set (pieces n xs) \<Longrightarrow> c \<noteq> [] \<and> length c \<le> n \<and> set c \<subseteq> set xs"
proof (induction n xs rule: pieces.induct)
  case (1 n xs)
  show ?case
  proof (cases "xs = [] \<or> n = 0")
    case True
    then show ?thesis using 1 by (simp add: pieces.simps)
  next
    case False
    then have "c = take n xs \<or> c \<in> set (pieces n (drop n xs))"
      using "1.prems" by (subst (asm) pieces.simps) auto
    then show ?thesis
    proof
      assume "c = take n xs"
      then show ?thesis using False by (auto dest: in_set_takeD)
    next
      assume "c \<in> set (pieces n (drop n xs))"
      then show ?thesis using "1.IH" False by (auto dest: in_set_dropD)
    qed
  qed
qed

lemma pieces_nth:
  "i < length (pieces n xs) \<Longrightarrow> pieces n xs ! i = take n (drop (i * n) xs)"
proof (induction n xs arbitrary: i rule: pieces.induct)
  case (1 n xs)
  show ?case
  proof (cases "xs = [] \<or> n = 0")
    case True
    then show ?thesis using 1 by (simp add: pieces.simps)
  next
    case False
    then have c: "pieces n xs = take n xs # pieces n (drop n xs)"
      by (subst pieces.simps) simp
    show ?thesis
    proof (cases i)
      case 0
      then show ?thesis by (simp add: c)
    next
      case (Suc j)
      then have "j < length (pieces n (drop n xs))" using "1.prems" c by simp
      then have "pieces n (drop n xs) ! j = take n (drop (j * n) (drop n xs))"
        using "1.IH" False by simp
      then show ?thesis by (simp add: c Suc add.commute)
    qed
  qed
qed


lemma group_window_eq:
  assumes "sub \<noteq> []" "gd < length (steps pv)"
    and "\<forall>w \<in> set sub. gd < length w \<and> is_slice (w ! gd)"
  shows "group_window pv gd sub = Inr (batch_window gd (steps pv ! gd) sub)"
proof -
  obtain w0 ws where sub: "sub = w0 # ws" using assms(1) by (cases sub) auto
  have w0: "gd < length w0" "is_slice (w0 ! gd)" using assms(3) sub by auto
  have wl: "gd < length (last sub)" "is_slice (last sub ! gd)"
    using assms(1,3) last_in_set by blast+
  obtain a b c where s0: "w0 ! gd = Slice a b c" using w0(2) by (cases "w0 ! gd") auto
  obtain a' b' c' where sl: "last sub ! gd = Slice a' b' c'"
    using wl(2) by (cases "last sub ! gd") auto
  have st: "slice_start w0 gd = Inr a" using w0 s0 by (simp add: slice_start_def)
  have sp: "slice_stop (last sub) gd = Inr b'" using wl sl by (simp add: slice_stop_def)
  have "group_window pv gd sub = set_item w0 gd (Slice a b' (Some (steps pv ! gd)))"
    using assms(2) sp by (simp add: group_window_def sub st del: last.simps)
  also have "\<dots> = Inr (w0[gd := Slice a b' (Some (steps pv ! gd))])"
    using w0(1) by (simp add: set_item_def)
  also have "w0[gd := Slice a b' (Some (steps pv ! gd))] = batch_window gd (steps pv ! gd) sub"
    using s0 sl by (simp add: batch_window_def sub del: last.simps)
  finally show ?thesis .
qed

lemma group_windows_eq:
  assumes "gd < length (steps pv)"
    and "\<forall>sub \<in> set subs. sub \<noteq> [] \<and> (\<forall>w \<in> set sub. gd < length w \<and> is_slice (w ! gd))"
  shows "group_windows pv gd subs = Inr (map (batch_window gd (steps pv ! gd)) subs)"
  using assms(2)
proof (induction subs)
  case Nil
  then show ?case by simp
next
  case (Cons sub subs)
  then show ?case using assms(1) by (simp add: group_window_eq)
qed

lemma group_banks_eq:
  assumes "gd < length (steps pv)" "0 < m"
    and "\<forall>bank \<in> set banks. \<forall>w \<in> set bank. gd < length w \<and> is_slice (w ! gd)"
  shows "group_banks pv gd (int m) banks
       = Inr (map (batch_window gd (steps pv ! gd)) (concat (map (pieces m) banks)))"
  using assms(3)
proof (induction banks)
  case Nil
  then show ?case by simp
next
  case (Cons bank banks)
  have "\<forall>sub \<in> set (pieces m bank). sub \<noteq> [] \<and> (\<forall>w \<in> set sub. gd < length w \<and> is_slice (w ! gd))"
    using Cons.prems pieces_parts[of _ m bank] by (metis list.set_intros(1) subsetD)
  then have gw: "group_windows pv gd (pieces m bank)
       = Inr (map (batch_window gd (steps pv ! gd)) (pieces m bank))"
    by (rule group_windows_eq[OF assms(1)])
  show ?case
    using Cons assms(2) by (simp add: split_list_pieces gw)
qed

text \<open>
  Grouping at position \<^verbatim>\<open>group_dim\<close>. For a flat window sequence whose windows carry a
  slice at the position of the primary slice axis, a primary axis length
  \<open>length[0] > 0\<close> and a batch size \<open>m \<ge> 1\<close>, grouping cuts the sequence into
  consecutive banks of \<open>length[0]\<close> windows, cuts each bank into chunks of at most \<open>m\<close>
  windows, and emits for each chunk, in order, one batch window: the chunk's first
  window with the selector at that position replaced by
  \<open>slice(first start, last stop, preview step)\<close>.
\<close>

theorem grouped_slice_list_batches:
  assumes "slice_directions pat = gd # rest"
    and "chunk_length_repeat labels (slice_directions pat) shp = Inr (chunk, l0 # len, repeat)"
    and "0 < l0" and "1 \<le> m" and "gd < length (steps pv)"
    and "\<forall>w \<in> set sl. gd < length w \<and> is_slice (w ! gd)"
  shows "grouped_slice_list pv pat labels shp sl m =
           Inr (map (batch_window gd (steps pv ! gd))
                  (concat (map (pieces (nat m)) (pieces (nat l0) sl))))
       \<and> concat (pieces (nat l0) sl) = sl
       \<and> (\<forall>i < length (pieces (nat l0) sl).
             pieces (nat l0) sl ! i = take (nat l0) (drop (i * nat l0) sl))
       \<and> (\<forall>bank \<in> set (pieces (nat l0) sl).
             concat (pieces (nat m) bank) = bank
             \<and> (\<forall>sub \<in> set (pieces (nat m) bank). sub \<noteq> [] \<and> length sub \<le> nat m))"
proof -
  have l0: "0 < nat l0" "int (nat l0) = l0" and m: "0 < nat m" "int (nat m) = m"
    using assms(3,4) by auto
  have "split_list sl l0 = Inr (pieces (nat l0) sl)"
    using split_list_pieces[OF l0(1), of sl] unfolding l0(2) .
  then have banked: "banked_list pat labels shp sl = Inr (pieces (nat l0) sl)"
    using assms(2) by (simp add: banked_list_def)
  have "\<forall>bank \<in> set (pieces (nat l0) sl). \<forall>w \<in> set bank. gd < length w \<and> is_slice (w ! gd)"
    using assms(6) pieces_parts[of _ "nat l0" sl] by (meson subsetD)
  then have "group_banks pv gd m (pieces (nat l0) sl)
       = Inr (map (batch_window gd (steps pv ! gd))
                  (concat (map (pieces (nat m)) (pieces (nat l0) sl))))"
    using group_banks_eq[OF assms(5) m(1), of "pieces (nat l0) sl"] unfolding m(2) by blast
  then have 1: "grouped_slice_list pv pat labels shp sl m =
           Inr (map (batch_window gd (steps pv ! gd))
                  (concat (map (pieces (nat m)) (pieces (nat l0) sl))))"
    using assms(1) banked by (simp add: grouped_slice_list_def)
  have 2: "concat (pieces (nat l0) sl) = sl" by (rule concat_pieces[OF l0(1)])
  have 3: "\<forall>i < length (pieces (nat l0) sl).
             pieces (nat l0) sl ! i = take (nat l0) (drop (i * nat l0) sl)"
    by (simp add: pieces_nth)
  have 4: "\<forall>bank \<in> set (pieces (nat l0) sl).
             concat (pieces (nat m) bank) = bank
             \<and> (\<forall>sub \<in> set (pieces (nat m) bank). sub \<noteq> [] \<and> length sub \<le> nat m)"
    using concat_pieces[OF m(1)] pieces_parts[of _ "nat m"] by blast
  show ?thesis using 1 2 3 4 by blast
qed

text \<open>The six windows of the example dataset, with \<open>length[0] = 3\<close> and batches of at
  most two windows: two banks, each cut into a chunk of two windows and a chunk of one.\<close>

theorem grouped_slice_list_batches_witness:
  "grouped_slice_list example_preview example_pattern [] example_shape example_windows 2
     = Inr [[Slice (Some 0) (Some 2) (Some 1), unit_slice 0, Slice (Some 0) (Some 4) (Some 1)],
            [Slice (Some 2) (Some 3) (Some 1), unit_slice 0, Slice (Some 0) (Some 4) (Some 1)],
            [Slice (Some 0) (Some 2) (Some 1), unit_slice 1, Slice (Some 0) (Some 4) (Some 1)],
            [Slice (Some 2) (Some 3) (Some 1), unit_slice 1, Slice (Some 0) (Some 4) (Some 1)]]"
proof -
  have h1: "slice_directions example_pattern = 0 # [1]"
    by (simp add: example_pattern_def)
  have h2: "chunk_length_repeat [] (slice_directions example_pattern) example_shape
          = Inr ([1, 3], 3 # [2], [2, 1])"
    by code_simp
  have h3: "(0::int) < 3" "(1::int) \<le> 2" "0 < length (steps example_preview)"
    by (simp_all add: example_preview_def)
  have h4: "\<forall>w \<in> set example_windows. 0 < length w \<and> is_slice (w ! 0)"
    by (simp add: example_windows_def unit_slice_def)
  have e: "map (batch_window 0 (steps example_preview ! 0))
             (concat (map (pieces (nat 2)) (pieces (nat 3) example_windows)))
      = [[Slice (Some 0) (Some 2) (Some 1), unit_slice 0, Slice (Some 0) (Some 4) (Some 1)],
         [Slice (Some 2) (Some 3) (Some 1), unit_slice 0, Slice (Some 0) (Some 4) (Some 1)],
         [Slice (Some 0) (Some 2) (Some 1), unit_slice 1, Slice (Some 0) (Some 4) (Some 1)],
         [Slice (Some 2) (Some 3) (Some 1), unit_slice 1, Slice (Some 0) (Some 4) (Some 1)]]"
    by code_simp
  show ?thesis
    using grouped_slice_list_batches[OF h1 h2 h3 h4, THEN conjunct1] unfolding e .
qed

subsection \<open>Grouping after a variable axis has been deleted\<close>

text \<open>
  C9. The batch window of a chunk is to carry, on the primary slice axis, the selector
  \<open>slice(first start, last stop, preview step)\<close>. \<^verbatim>\<open>__remove_var_length_dimension\<close> deletes
  the selector of a variable axis from every window, and \<^verbatim>\<open>__grouped_slice_list\<close> then
  reads and writes position \<^verbatim>\<open>get_slice_directions()[0]\<close> of the shortened windows. For the
  shape \<open>('var', 3, 4)\<close> sliced along axis 1 with batches of two frames, the three flat
  windows are the frames 0, 1 and 2; the batches the code returns are frame 0 alone and
  frame 2, so frame 1 is lost, where the claim gives the frames 0 to 1 and frame 2.
\<close>

theorem grouping_after_deleted_axis:
  "single_slice_list var_preview var_pattern [] var_shape
     = Inr [[unit_slice 0, Slice (Some 0) (Some 4) (Some 1)],
            [unit_slice 1, Slice (Some 0) (Some 4) (Some 1)],
            [unit_slice 2, Slice (Some 0) (Some 4) (Some 1)]]
   \<and> get_grouped_slice_list var_preview var_pattern [] var_shape (Some 2)
     = Inr [[unit_slice 0, Slice (Some 0) (Some 4) (Some 1)],
            [unit_slice 2, Slice (Some 0) (Some 4) (Some 1)]]
   \<and> map (batch_window 0 1)
        (concat (map (pieces 2)
           (pieces 3 [[unit_slice 0, Slice (Some 0) (Some 4) (Some 1)],
                      [unit_slice 1, Slice (Some 0) (Some 4) (Some 1)],
                      [unit_slice 2, Slice (Some 0) (Some 4) (Some 1)]])))
     = [[Slice (Some 0) (Some 2) (Some 1), Slice (Some 0) (Some 4) (Some 1)],
        [unit_slice 2, Slice (Some 0) (Some 4) (Some 1)]]"
  by code_simp

subsection \<open>The order of the flat window sequence\<close>
















lemma length_fold_update [simp]:
  "length (fold (\<lambda>(d, v) ys. ys[d := v]) items xs) = length xs"
  by (induction items arbitrary: xs) (auto split: prod.splits)











subsection \<open>Frame-length matching and its reset\<close>

lemma matching_dims_frame:
  assumes "matching_dims cls pData w = Inr pData1"
  shows "pattern_of pData1 = pattern_of pData \<and> frame_chunk pData1 = frame_chunk pData
       \<and> fixed_dims pData1 = fixed_dims pData \<and> pad_dict pData1 = pad_dict pData
       \<and> end_pad pData1
       \<and> (truthy (padding pData1) \<or> padding pData1 = padding pData)
       \<and> (\<forall>r. padding pData1 \<noteq> RawPadding r \<or> padding pData1 = padding pData)"
  using assms
  by (auto simp: matching_dims_def Let_def
      split: list.splits if_splits selector.splits option.splits padding.splits prod.splits)

lemma correct_pad_restores:
  assumes "pristine cls pData"
    and "pad_dict pData1 = pad_dict pData" and "pattern_of pData1 = pattern_of pData"
    and "frame_chunk pData1 = frame_chunk pData" and "fixed_dims pData1 = fixed_dims pData"
    and "correct_pad cls pData1 = Inr pData2"
  shows "pristine cls pData2 \<and> directions_in_force pData2 = directions_in_force pData
       \<and> pad_dict pData2 = pad_dict pData \<and> pattern_of pData2 = pattern_of pData
       \<and> frame_chunk pData2 = frame_chunk pData \<and> fixed_dims pData2 = fixed_dims pData"
  using assms
  by (auto simp: correct_pad_def set_padding_dict_def pristine_def
      split: option.splits if_splits padding.splits sum.splits)


lemma padded_restores:
  assumes "pristine cls pData"
    and "get_padded_slice_data cls shp data pData w = Inr (pData', block)"
  shows "pristine cls pData' \<and> directions_in_force pData' = directions_in_force pData
       \<and> pad_dict pData' = pad_dict pData \<and> pattern_of pData' = pattern_of pData
       \<and> frame_chunk pData' = frame_chunk pData \<and> fixed_dims pData' = fixed_dims pData"
proof -
  obtain pData1 where p1:
    "(if fixed_dims pData then matching_dims cls pData w else Inr pData) = Inr pData1"
    using assms(2) by (auto simp: get_padded_slice_data_def split: sum.splits)
  have fr: "pattern_of pData1 = pattern_of pData" "frame_chunk pData1 = frame_chunk pData"
    "fixed_dims pData1 = fixed_dims pData" "pad_dict pData1 = pad_dict pData"
    "truthy (padding pData1) \<or> padding pData1 = padding pData"
    "fixed_dims pData \<or> pData1 = pData"
    using p1 matching_dims_frame[of cls pData w pData1] by (auto split: if_splits)
  show ?thesis
  proof (cases "truthy (padding pData1)")
    case False
    then have "pData' = pData1" "padding pData1 = padding pData"
      using assms(2) p1 fr(5) by (auto simp: get_padded_slice_data_def split: sum.splits)
    then show ?thesis
      using assms(1) fr by (auto simp: pristine_def split: padding.splits)
  next
    case True
    then obtain pd2 where
      p2: "(if end_pad pData1 then correct_pad cls pData1 else Inr pData1) = Inr pd2"
      and eq: "pData' = pd2"
      using assms(2) p1
      by (auto simp: get_padded_slice_data_def split: sum.splits padding.splits prod.splits)
    show ?thesis
    proof (cases "end_pad pData1")
      case True
      then have "correct_pad cls pData1 = Inr pd2" using p2 by simp
      then show ?thesis
        using correct_pad_restores[OF assms(1) fr(4,1,2,3)] eq by blast
    next
      case False
      then have "pd2 = pData1" using p2 by simp
      moreover have "pData1 = pData"
        using False p1 matching_dims_frame[of cls pData w pData1] by (auto split: if_splits)
      ultimately show ?thesis using assms(1) eq by simp
    qed
  qed
qed

lemma unpadded_restores:
  assumes "pristine cls pData"
    and "get_unpadded_slice_data cls nDims pData w padded = Inr (pData', block)"
  shows "pristine cls pData' \<and> directions_in_force pData' = directions_in_force pData
       \<and> pad_dict pData' = pad_dict pData \<and> pattern_of pData' = pattern_of pData
       \<and> frame_chunk pData' = frame_chunk pData \<and> fixed_dims pData' = fixed_dims pData"
proof -
  obtain pData1 where p1:
    "(if fixed_dims pData then matching_dims cls pData w else Inr pData) = Inr pData1"
    using assms(2) by (auto simp: get_unpadded_slice_data_def split: sum.splits)
  have fr: "pattern_of pData1 = pattern_of pData" "frame_chunk pData1 = frame_chunk pData"
    "fixed_dims pData1 = fixed_dims pData" "pad_dict pData1 = pad_dict pData"
    "truthy (padding pData1) \<or> padding pData1 = padding pData"
    "fixed_dims pData \<or> pData1 = pData"
    using p1 matching_dims_frame[of cls pData w pData1] by (auto split: if_splits)
  show ?thesis
  proof (cases "truthy (padding pData1)")
    case False
    then have "pData' = pData1" "padding pData1 = padding pData"
      using assms(2) p1 fr(5) by (auto simp: get_unpadded_slice_data_def split: sum.splits)
    then show ?thesis
      using assms(1) fr by (auto simp: pristine_def split: padding.splits)
  next
    case True
    then obtain pd2 where
      p2: "(if end_pad pData1 then correct_pad cls pData1 else Inr pData1) = Inr pd2"
      and eq: "pData' = pd2"
      using assms(2) p1
      by (auto simp: get_unpadded_slice_data_def split: sum.splits padding.splits prod.splits)
    show ?thesis
    proof (cases "end_pad pData1")
      case True
      then have "correct_pad cls pData1 = Inr pd2" using p2 by simp
      then show ?thesis
        using correct_pad_restores[OF assms(1) fr(4,1,2,3)] eq by blast
    next
      case False
      then have "pd2 = pData1" using p2 by simp
      moreover have "pData1 = pData"
        using False p1 matching_dims_frame[of cls pData w pData1] by (auto split: if_splits)
      ultimately show ?thesis using assms(1) eq by simp
    qed
  qed
qed

lemma matching_dims_cong:
  assumes "pristine cls pData" and "pristine cls pData'"
    and "directions_in_force pData' = directions_in_force pData"
    and "pattern_of pData' = pattern_of pData" and "frame_chunk pData' = frame_chunk pData"
  shows "map_sum id directions_in_force (matching_dims cls pData' w)
       = map_sum id directions_in_force (matching_dims cls pData w)"
proof -
  have t: "truthy (padding pData') = truthy (padding pData)"
    using assms(1-3) by (auto simp: pristine_def split: padding.splits option.splits)
  have d: "truthy (padding pData) \<Longrightarrow> padding pData' = padding pData"
    using assms(1-3) by (auto simp: pristine_def split: padding.splits option.splits)
  show ?thesis
  proof (cases "truthy (padding pData)")
    case True
    then show ?thesis
      using d t assms(4,5)
      by (auto simp: matching_dims_def Let_def
          split: list.splits selector.splits option.splits padding.splits)
  next
    case False
    then have "directions_in_force pData = None" "directions_in_force pData' = None"
      using t by (auto split: padding.splits)
    then show ?thesis
      using False t assms(4,5)
      by (auto simp: matching_dims_def Let_def
          split: list.splits selector.splits option.splits)
  qed
qed

lemma directions_used_cong:
  assumes "pristine cls pData" and "pristine cls pData'"
    and "directions_in_force pData' = directions_in_force pData"
    and "pattern_of pData' = pattern_of pData" and "frame_chunk pData' = frame_chunk pData"
    and "fixed_dims pData' = fixed_dims pData"
  shows "directions_used cls pData' w = directions_used cls pData w"
  using matching_dims_cong[OF assms(1-5), of w] assms(3,6)
  by (auto simp: directions_used_def split: sum.splits)

lemma directions_used_tail:
  assumes "pristine cls pData" and "fixed_dims pData"
    and "slice_directions (pattern_of pData) = sd # rest" and "sd < length w"
    and "w ! sd = Slice (Some a) (Some b) (Some st)" and "st \<noteq> 0"
    and "frame_chunk pData = Some m" and "m \<noteq> int (length (arange a b st))"
  shows "directions_used cls pData w =
           Inr (Some (pad_direction_after sd (m - int (length (arange a b st)))
                        (case directions_in_force pData of
                           None \<Rightarrow> new_padding cls
                         | Some dirs \<Rightarrow> dirs)))"
  using assms
  by (auto simp: directions_used_def matching_dims_def Let_def pristine_def
      split: padding.splits option.splits)

lemma set_padding_dict_pristine:
  assumes "pad_dict pData0 = None" and "\<forall>dirs. padding pData0 \<noteq> PaddingObj dirs"
    and "set_padding_dict cls pData0 = Inr pData"
  shows "pristine cls pData"
  using assms
  by (auto simp: set_padding_dict_def pristine_def
      split: padding.splits if_splits sum.splits)

text \<open>
  C5. In a pristine state (no padding and no remembered request, or the \<^verbatim>\<open>Padding\<close> object
  built from the remembered request, as \<^verbatim>\<open>__set_padding_dict\<close> leaves it), every call of
  \<^verbatim>\<open>_get_padded_slice_data\<close> or \<^verbatim>\<open>_get_unpadded_slice_data\<close> that returns leaves a pristine
  state with the same padding directions in force, so that any later window is handled
  with the directions it would have been handled with before the call. This holds in
  particular when the call itself, on a batch shorter than the frame chunk, worked with
  the tail-matched directions: the directions in force (or those of a fresh \<^verbatim>\<open>Padding\<close>)
  with the after-pad of the primary slice axis raised by the shortfall.
\<close>

theorem tail_matching_reset:
  assumes "pristine cls pData"
  shows "(\<forall>pData' block.
            get_padded_slice_data cls shp data pData w = Inr (pData', block) \<longrightarrow>
              pristine cls pData'
              \<and> directions_in_force pData' = directions_in_force pData
              \<and> (\<forall>w2. directions_used cls pData' w2 = directions_used cls pData w2))
       \<and> (\<forall>pData' block.
            get_unpadded_slice_data cls nDims pData w padded = Inr (pData', block) \<longrightarrow>
              pristine cls pData'
              \<and> directions_in_force pData' = directions_in_force pData
              \<and> (\<forall>w2. directions_used cls pData' w2 = directions_used cls pData w2))
       \<and> (\<forall>sd rest a b st m.
            fixed_dims pData \<and> slice_directions (pattern_of pData) = sd # rest
            \<and> sd < length w \<and> w ! sd = Slice (Some a) (Some b) (Some st) \<and> st \<noteq> 0
            \<and> frame_chunk pData = Some m \<and> m \<noteq> int (length (arange a b st)) \<longrightarrow>
              directions_used cls pData w =
                Inr (Some (pad_direction_after sd (m - int (length (arange a b st)))
                             (case directions_in_force pData of
                                None \<Rightarrow> new_padding cls
                              | Some dirs \<Rightarrow> dirs))))"
proof (intro conjI allI impI)
  fix pData' :: "'a plugin_data" and block :: "'b ndarray"
  assume r: "get_padded_slice_data cls shp data pData w = Inr (pData', block)"
  note f = padded_restores[OF assms r]
  show "pristine cls pData'" using f by blast
  show "directions_in_force pData' = directions_in_force pData" using f by blast
  fix w2
  show "directions_used cls pData' w2 = directions_used cls pData w2"
    by (rule directions_used_cong[OF assms]) (use f in blast)+
next
  fix pData' :: "'a plugin_data" and block :: "'c ndarray"
  assume r: "get_unpadded_slice_data cls nDims pData w padded = Inr (pData', block)"
  note f = unpadded_restores[OF assms r]
  show "pristine cls pData'" using f by blast
  show "directions_in_force pData' = directions_in_force pData" using f by blast
  fix w2
  show "directions_used cls pData' w2 = directions_used cls pData w2"
    by (rule directions_used_cong[OF assms]) (use f in blast)+
next
  fix sd rest a b st m
  assume "fixed_dims pData \<and> slice_directions (pattern_of pData) = sd # rest
            \<and> sd < length w \<and> w ! sd = Slice (Some a) (Some b) (Some st) \<and> st \<noteq> 0
            \<and> frame_chunk pData = Some m \<and> m \<noteq> int (length (arange a b st))"
  then show "directions_used cls pData w =
                Inr (Some (pad_direction_after sd (m - int (length (arange a b st)))
                             (case directions_in_force pData of
                                None \<Rightarrow> new_padding cls
                              | Some dirs \<Rightarrow> dirs)))"
    using directions_used_tail[OF assms] by blast
qed

text \<open>The last batch of the example holds two frames of four: the call pads the axis
  by 2 before and 4 after, and leaves the directions 2 and 2 in force.\<close>

theorem tail_matching_reset_witness:
  "get_padded_slice_data example_padding_class [Len 10] example_data example_plugin_data
       [Slice (Some 8) (Some 10) (Some 1)]
     = Inr (example_plugin_data, \<lparr>shape = [8], flat = [16, 17, 18, 19, 19, 19, 19, 19]\<rparr>)
   \<and> directions_used example_padding_class example_plugin_data
         [Slice (Some 8) (Some 10) (Some 1)]
     = Inr (Some [(0, \<lparr>before = 2, after = 4\<rparr>)])
   \<and> directions_in_force example_plugin_data = Some [(0, \<lparr>before = 2, after = 2\<rparr>)]
   \<and> pristine example_padding_class example_plugin_data"
proof -
  let ?w = "[Slice (Some 8) (Some 10) (Some 1)]"
  have p: "pristine example_padding_class example_plugin_data"
    by (simp add: pristine_def example_padding_class_def example_plugin_data_def)
  have c: "get_padded_slice_data example_padding_class [Len 10] example_data
             example_plugin_data ?w
         = Inr (example_plugin_data, \<lparr>shape = [8], flat = [16, 17, 18, 19, 19, 19, 19, 19]\<rparr>)"
    by code_simp
  have h: "fixed_dims example_plugin_data
         \<and> slice_directions (pattern_of example_plugin_data) = 0 # []
         \<and> 0 < length ?w \<and> ?w ! 0 = Slice (Some 8) (Some 10) (Some 1) \<and> (1::int) \<noteq> 0
         \<and> frame_chunk example_plugin_data = Some 4 \<and> 4 \<noteq> int (length (arange 8 10 1))"
    by (simp add: example_plugin_data_def arange_def)
  have e: "pad_direction_after 0 (4 - int (length (arange 8 10 1)))
             (case directions_in_force example_plugin_data of
                None \<Rightarrow> new_padding example_padding_class
              | Some dirs \<Rightarrow> dirs)
         = [(0, \<lparr>before = 2, after = 4\<rparr>)]"
    by code_simp
  note t = tail_matching_reset[OF p, of "[Len 10]" example_data ?w]
  have after: "pristine example_padding_class example_plugin_data
      \<and> directions_in_force example_plugin_data = directions_in_force example_plugin_data"
    using t[THEN conjunct1, rule_format, OF c] by blast
  have during: "directions_used example_padding_class example_plugin_data ?w
      = Inr (Some [(0, \<lparr>before = 2, after = 4\<rparr>)])"
    using t[THEN conjunct2, THEN conjunct2, rule_format, OF h] unfolding e .
  have d: "directions_in_force example_plugin_data = Some [(0, \<lparr>before = 2, after = 2\<rparr>)]"
    by (simp add: example_plugin_data_def)
  show ?thesis
    using c during d after by blast
qed

subsection \<open>Calls from a pristine state\<close>

lemma correct_pad_ok:
  assumes "pristine cls pData" and "pad_dict pData1 = pad_dict pData"
  shows "\<exists>pData2. correct_pad cls pData1 = Inr pData2"
  using assms
  by (auto simp: correct_pad_def set_padding_dict_def pristine_def
      split: option.splits padding.splits)

lemma prologue_cases:
  assumes "pristine cls pData" and "directions_used cls pData w = Inr ds"
  obtains pData1 where
    "(if fixed_dims pData then matching_dims cls pData w else Inr pData) = Inr pData1"
    and "directions_in_force pData1 = ds" and "pad_dict pData1 = pad_dict pData"
    and "truthy (padding pData1) \<longleftrightarrow> ds \<noteq> None"
proof -
  obtain pData1 where p1:
    "(if fixed_dims pData then matching_dims cls pData w else Inr pData) = Inr pData1"
    and d: "directions_in_force pData1 = ds"
    using assms(2) by (auto simp: directions_used_def split: sum.splits)
  have pd: "pad_dict pData1 = pad_dict pData"
    and raw: "\<forall>r. padding pData1 \<noteq> RawPadding r \<or> padding pData1 = padding pData"
    using p1 matching_dims_frame[of cls pData w pData1] by (auto split: if_splits)
  have "truthy (padding pData1) \<longleftrightarrow> ds \<noteq> None"
  proof (cases "padding pData1")
    case NoPadding
    then show ?thesis using d by simp
  next
    case (RawPadding r)
    then have "padding pData = RawPadding r" using raw by auto
    then have "r = []" using assms(1) by (simp add: pristine_def)
    then show ?thesis using d RawPadding by simp
  next
    case (PaddingObj x)
    then show ?thesis using d by auto
  qed
  then show ?thesis using that p1 d pd by blast
qed

lemma unpadded_call_sum:
  assumes "pristine cls pData" and "directions_used cls pData w = Inr (Some dirs)"
    and "unpad_slices dirs (shape padded) (replicate nDims (Slice None None None)) = Inr crop"
  shows "\<exists>pData'. get_unpadded_slice_data cls nDims pData w padded
           = map_sum id (Pair pData') (getitem crop padded)"
proof -
  obtain pData1 where p1:
    "(if fixed_dims pData then matching_dims cls pData w else Inr pData) = Inr pData1"
    and d: "directions_in_force pData1 = Some dirs" and pd: "pad_dict pData1 = pad_dict pData"
    and t: "truthy (padding pData1) \<longleftrightarrow> Some dirs \<noteq> None"
    using prologue_cases[OF assms(1,2)] by metis
  have obj: "padding pData1 = PaddingObj dirs"
    using d by (auto split: padding.splits)
  obtain pData2 where p2:
    "(if end_pad pData1 then correct_pad cls pData1 else Inr pData1) = Inr pData2"
    using correct_pad_ok[OF assms(1) pd] by (cases "end_pad pData1") auto
  have "get_unpadded_slice_data cls nDims pData w padded
           = map_sum id (Pair pData2) (getitem crop padded)"
    unfolding get_unpadded_slice_data_def p1
    using obj assms(3) p2 by (simp split: sum.splits)
  then show ?thesis by blast
qed

subsection \<open>The inverse crop within a call\<close>

text \<open>
  C10 (amended). When \<^verbatim>\<open>_get_unpadded_slice_data\<close> is called in a pristine state and works
  with the padding directions \<open>dirs\<close>, it returns the padded block indexed with the crop
  that has \<open>slice(before, extent of the padded block, 1)\<close> on every padded axis whose
  after-pad is 0, \<open>slice(before, - after, 1)\<close> on every padded axis with another after-pad,
  and the whole axis elsewhere (and it fails exactly when that indexing fails). The crop
  of a zero-after axis selects the positions from \<open>before\<close> up to the extent, so it is
  not empty whenever \<open>0 \<le> before < extent\<close>; for \<open>0 < after \<le> extent\<close> the stop
  \<open>- after\<close> denotes \<open>extent - after\<close>.
\<close>

theorem unpadded_crop:
  assumes "pristine cls pData"
    and "directions_used cls pData w = Inr (Some dirs)"
    and "distinct (map fst dirs)"
    and "\<forall>d \<in> fst ` set dirs. d < nDims \<and> d < length (shape padded)"
  shows "(\<exists>pData'. get_unpadded_slice_data cls nDims pData w padded
            = map_sum id (Pair pData')
                (getitem (crop_window dirs (shape padded) nDims) padded))
       \<and> unpad_slices dirs (shape padded) (replicate nDims (Slice None None None))
           = Inr (crop_window dirs (shape padded) nDims)
       \<and> (0 \<le> b \<longrightarrow> slice_indices (Some b) (Some (int n)) (Some 1) n = Inr [nat b..<n])
       \<and> (0 \<le> b \<and> b < int n \<longrightarrow>
            (\<exists>i is. slice_indices (Some b) (Some (int n)) (Some 1) n = Inr (i # is)))
       \<and> (0 \<le> b \<and> 0 < a \<and> a \<le> int n \<longrightarrow>
            slice_indices (Some b) (Some (- a)) (Some 1) n = Inr [nat b..<n - nat a])"
proof -
  have c: "unpad_slices dirs (shape padded) (replicate nDims (Slice None None None))
           = Inr (crop_window dirs (shape padded) nDims)"
    using assms(3,4)
    by (subst unpad_slices_gen) (auto simp: crop_window_def split: option.splits)
  have g: "\<exists>pData'. get_unpadded_slice_data cls nDims pData w padded
            = map_sum id (Pair pData')
                (getitem (crop_window dirs (shape padded) nDims) padded)"
    by (rule unpadded_call_sum[OF assms(1,2) c])
  have "\<exists>i is. [nat b..<n] = i # is" if "0 \<le> b" "b < int n"
    using that by (cases "[nat b..<n]") auto
  then have s: "(0 \<le> b \<longrightarrow> slice_indices (Some b) (Some (int n)) (Some 1) n = Inr [nat b..<n])
       \<and> (0 \<le> b \<and> b < int n \<longrightarrow>
            (\<exists>i is. slice_indices (Some b) (Some (int n)) (Some 1) n = Inr (i # is)))
       \<and> (0 \<le> b \<and> 0 < a \<and> a \<le> int n \<longrightarrow>
            slice_indices (Some b) (Some (- a)) (Some 1) n = Inr [nat b..<n - nat a])"
    by (auto simp: slice_indices_crop_full slice_indices_crop_after)
  show ?thesis using g c s by (intro conjI) blast+
qed

text \<open>A block of shape (4, 3) padded by 2 and 0 on its first axis and by 1 and 1 on its
  second: the crop is \<open>[2:4, 1:-1]\<close> and keeps the positions 7 and 10.\<close>

theorem unpadded_crop_witness:
  "(\<exists>pData'. get_unpadded_slice_data listed_padding_class 2
        (listed_plugin_data [(0, \<lparr>before = 2, after = 0\<rparr>), (1, \<lparr>before = 1, after = 1\<rparr>)])
        [unit_slice 0, unit_slice 1] (counting_data [4, 3])
      = Inr (pData', \<lparr>shape = [2, 1], flat = [7, 10]\<rparr>))
   \<and> unpad_slices [(0, \<lparr>before = 2, after = 0\<rparr>), (1, \<lparr>before = 1, after = 1\<rparr>)] [4, 3]
       (replicate 2 (Slice None None None))
     = Inr [Slice (Some 2) (Some 4) (Some 1), Slice (Some 1) (Some (- 1)) (Some 1)]
   \<and> slice_indices (Some 2) (Some 4) (Some 1) 4 = Inr [2, 3]
   \<and> slice_indices (Some 1) (Some (- 1)) (Some 1) 3 = Inr [1]"
proof -
  let ?dirs = "[(0 :: nat, \<lparr>before = 2, after = 0\<rparr>), (1, \<lparr>before = 1, after = 1\<rparr>)]"
  let ?w = "[unit_slice 0, unit_slice 1]"
  have p: "pristine listed_padding_class (listed_plugin_data ?dirs)"
    by (simp add: pristine_def listed_padding_class_def listed_plugin_data_def)
  have u: "directions_used listed_padding_class (listed_plugin_data ?dirs) ?w
         = Inr (Some ?dirs)"
    by (simp add: directions_used_def listed_plugin_data_def)
  have h: "distinct (map fst ?dirs)"
    "\<forall>d \<in> fst ` set ?dirs. d < 2 \<and> d < length (shape (counting_data [4, 3]))"
    by (simp_all add: counting_data_def)
  have e: "shape (counting_data [4, 3]) = [4, 3]"
    "crop_window ?dirs [4, 3] 2
       = [Slice (Some 2) (Some 4) (Some 1), Slice (Some 1) (Some (- 1)) (Some 1)]"
    by code_simp+
  have g: "getitem [Slice (Some 2) (Some 4) (Some 1), Slice (Some 1) (Some (- 1)) (Some 1)]
             (counting_data [4, 3])
         = Inr \<lparr>shape = [2, 1], flat = [7, 10]\<rparr>"
    by code_simp
  have m: "map_sum id (Pair x) (Inr y :: error + int ndarray) = Inr (x, y)" for x :: "padding_dirs plugin_data" and y
    by simp
  have n: "int 4 = 4" "[nat 2..<4] = [2, 3]" "int 3 = 3" "[nat 1..<3 - nat 1] = [1]"
    by code_simp+
  have b: "(0::int) \<le> 2" "(0::int) \<le> 1 \<and> (0::int) < 1 \<and> 1 \<le> int 3"
    by simp_all
  note t1 = unpadded_crop[OF p u h, of 2 4 1]
  note t2 = unpadded_crop[OF p u h, of 1 3 1]
  have 1: "\<exists>pData'. get_unpadded_slice_data listed_padding_class 2 (listed_plugin_data ?dirs)
        ?w (counting_data [4, 3]) = Inr (pData', \<lparr>shape = [2, 1], flat = [7, 10]\<rparr>)"
    using t1[THEN conjunct1] unfolding e g m .
  have 2: "unpad_slices ?dirs [4, 3] (replicate 2 (Slice None None None))
     = Inr [Slice (Some 2) (Some 4) (Some 1), Slice (Some 1) (Some (- 1)) (Some 1)]"
    using t1[THEN conjunct2, THEN conjunct1] unfolding e .
  have 3: "slice_indices (Some 2) (Some 4) (Some 1) 4 = Inr [2, 3]"
    using t1[THEN conjunct2, THEN conjunct2, THEN conjunct1, rule_format, OF b(1)]
    unfolding n .
  have 4: "slice_indices (Some 1) (Some (- 1)) (Some 1) 3 = Inr [1]"
    using t2[THEN conjunct2, THEN conjunct2, THEN conjunct2, THEN conjunct2, rule_format, OF b(2)]
    unfolding n .
  show ?thesis
    by (intro conjI 1 2 3 4)
qed

text \<open>A zero-after axis whose before-pad reaches the extent of the block: the padded read
  of the window \<open>10:21:10\<close> with a before-pad of 3 on an axis of 30 has extent 2, the crop
  is \<open>slice(3, 2, 1)\<close> and selects nothing.\<close>

theorem empty_crop_counterexample:
  "get_padded_slice_data listed_padding_class [Len 30] (counting_data [30])
       (listed_plugin_data [(0, \<lparr>before = 3, after = 0\<rparr>)])
       [Slice (Some 10) (Some 21) (Some 10)]
     = Inr (listed_plugin_data [(0, \<lparr>before = 3, after = 0\<rparr>)],
            \<lparr>shape = [2], flat = [7, 17]\<rparr>)
   \<and> get_unpadded_slice_data listed_padding_class 1
       (listed_plugin_data [(0, \<lparr>before = 3, after = 0\<rparr>)])
       [Slice (Some 10) (Some 21) (Some 10)] \<lparr>shape = [2], flat = [7, 17 :: int]\<rparr>
     = Inr (listed_plugin_data [(0, \<lparr>before = 3, after = 0\<rparr>)],
            \<lparr>shape = [0], flat = []\<rparr>)
   \<and> unpad_slices [(0, \<lparr>before = 3, after = 0\<rparr>)] [2] [Slice None None None]
     = Inr [Slice (Some 3) (Some 2) (Some 1)]"
  by code_simp

subsection \<open>Composition of gathers\<close>







subsection \<open>The positions of a slice on one axis\<close>









subsection \<open>Reads through windows of slices\<close>






subsection \<open>The round trip of padding and crop\<close>











text \<open>The premises on the selectors cannot be dropped. A stop counted from the end of the
  axis is extended as a number: \<open>2:-1\<close> with an after-pad of 1 becomes \<open>1:0\<close>, an empty
  read. An integer selector removes its axis from the padded block, and the crop, which
  has one slice for every axis of the dataset, then has too many indices.\<close>

lemma round_trip_outside_the_premises:
  "get_padded_slice_data listed_padding_class [Len 10] (counting_data [10])
       (listed_plugin_data [(0, \<lparr>before = 1, after = 1\<rparr>)])
       [Slice (Some 2) (Some (- 1)) (Some 1)]
     = Inr (listed_plugin_data [(0, \<lparr>before = 1, after = 1\<rparr>)], \<lparr>shape = [0], flat = []\<rparr>)
   \<and> getitem [Slice (Some 2) (Some (- 1)) (Some 1)] (counting_data [10])
     = Inr \<lparr>shape = [7], flat = [2, 3, 4, 5, 6, 7, 8]\<rparr>
   \<and> get_padded_slice_data listed_padding_class [Len 4, Len 3] (counting_data [4, 3])
       (listed_plugin_data [(0, \<lparr>before = 1, after = 1\<rparr>)])
       [Slice (Some 1) (Some 3) (Some 1), Index 1]
     = Inr (listed_plugin_data [(0, \<lparr>before = 1, after = 1\<rparr>)],
            \<lparr>shape = [4], flat = [1, 4, 7, 10]\<rparr>)
   \<and> get_unpadded_slice_data listed_padding_class 2
       (listed_plugin_data [(0, \<lparr>before = 1, after = 1\<rparr>)])
       [Slice (Some 1) (Some 3) (Some 1), Index 1] \<lparr>shape = [4], flat = [1, 4, 7, 10 :: int]\<rparr>
     = Inl IndexError"
  by code_simp

end
